theory Spec2Isabelle
  imports Main "HOL-Library.Sublist" "HOL-Library.AList"
    "HOL-Library.Char_ord" "HOL-Library.List_Lexorder" "HOL-Library.Product_Lexorder"
begin

section \<open>Values, strings and tables\<close>

text \<open>
  The scripts of the repository work on pandas tables read from a spreadsheet. A cell
  of such a table is a text value, a whole number, the float \<open>nan\<close> that pandas
  puts where the spreadsheet cell is empty, or Python's \<open>None\<close>. A \<open>char\<close> stands
  for a code point below 256. Geometry objects are opaque to every operation modelled
  here, so the geometry column of the reference map is left out of the tables.
\<close>

datatype cell = Str string | Num int | NaN | PyNone

datatype error = KeyError | ValueError | AttributeError | ReError

type_synonym series = "cell list"

text \<open>A table is the list of its columns, each a name with the values of its rows.\<close>

type_synonym dataframe = "(string \<times> series) list"

text \<open>\<open>pandas.isna\<close>: both \<open>nan\<close> and \<open>None\<close> are missing values.\<close>

fun is_na :: "cell \<Rightarrow> bool" where
  "is_na NaN = True"
| "is_na PyNone = True"
| "is_na (Str s) = False"
| "is_na (Num n) = False"

subsection \<open>Python strings\<close>

text \<open>\<open>str.isspace\<close> on one character, for the code points below 256.\<close>

definition is_space :: "char \<Rightarrow> bool" where
  "is_space c =
     (let n = (of_char c :: nat)
      in (9 \<le> n \<and> n \<le> 13) \<or> (28 \<le> n \<and> n \<le> 32) \<or> n = 133 \<or> n = 160)"

text \<open>\<open>s.strip()\<close>: leading and trailing whitespace removed.\<close>

definition strip :: "string \<Rightarrow> string" where
  "strip s = rev (dropWhile is_space (rev (dropWhile is_space s)))"

text \<open>
  \<open>s.split(sep)\<close> for a non-empty separator: the pieces between the occurrences of
  \<open>sep\<close>, found from the left and not overlapping. The accumulator holds the
  current piece, reversed. The scripts call it with the separators \<open>", "\<close> and
  \<open>"/"\<close> only (Python raises ValueError on an empty separator).
\<close>

function split_acc :: "string \<Rightarrow> string \<Rightarrow> string \<Rightarrow> string list" where
  "split_acc sep acc [] = [rev acc]"
| "split_acc sep acc (c # cs) =
     (if sep \<noteq> [] \<and> prefix sep (c # cs)
      then rev acc # split_acc sep [] (drop (length sep) (c # cs))
      else split_acc sep (c # acc) cs)"
  by pat_completeness auto
termination
  by (relation "measure (\<lambda>(sep, acc, s). length s)") (auto simp: neq_Nil_conv)

definition str_split :: "string \<Rightarrow> string \<Rightarrow> string list" where
  "str_split sep s = split_acc sep [] s"

text \<open>\<open>pat in s\<close>: \<open>pat\<close> occurs in \<open>s\<close> as a contiguous piece.\<close>

fun contains_sub :: "string \<Rightarrow> string \<Rightarrow> bool" where
  "contains_sub pat [] = (pat = [])"
| "contains_sub pat (c # cs) = (prefix pat (c # cs) \<or> contains_sub pat cs)"

text \<open>\<open>str(n)\<close> for a Python int: the decimal digits, with a sign when negative.\<close>

definition digit_char :: "nat \<Rightarrow> char" where
  "digit_char d = char_of (48 + d)"

function str_nat :: "nat \<Rightarrow> string" where
  "str_nat n = (if n < 10 then [digit_char n] else str_nat (n div 10) @ [digit_char (n mod 10)])"
  by pat_completeness auto
termination
  by (relation "measure id") auto

definition str_int :: "int \<Rightarrow> string" where
  "str_int i = (if i < 0 then CHR ''-'' # str_nat (nat (- i)) else str_nat (nat i))"

text \<open>\<open>str(item)\<close> for a cell: \<open>str(float('nan'))\<close> is \<open>'nan'\<close>, \<open>str(None)\<close> is \<open>'None'\<close>.\<close>

fun str_cell :: "cell \<Rightarrow> string" where
  "str_cell (Str s) = s"
| "str_cell (Num n) = str_int n"
| "str_cell NaN = ''nan''"
| "str_cell PyNone = ''None''"

section \<open>prod_analysis.py: the text normalizer\<close>

text \<open>
  \<^verbatim>\<open>
  def clean_and_split(data_column):
      split_items = [str(item).split(", ") for item in data_column]
      flattened_items = [item.strip() for sublist in split_items for item in sublist]
      return flattened_items
  \<close>
\<close>

definition clean_and_split :: "series \<Rightarrow> string list" where
  "clean_and_split data_column =
     (let split_items = map (\<lambda>item. str_split '', '' (str_cell item)) data_column;
          flattened_items = map strip (concat split_items)
      in flattened_items)"

section \<open>The pandas operations the scripts call\<close>

text \<open>
  A column of the model is the column pandas builds from these values, as
  \<open>read_excel\<close> and the \<open>DataFrame\<close> constructor do: with a text value among them
  it is a column of Python objects (dtype \<open>object\<close>), and so it is when it holds
  nothing but \<open>None\<close>; otherwise it is a column of numbers. The tables given to
  the functions below are such tables. (A column that a mask cuts from a column of
  objects stays a column of objects in pandas, whatever is left in it; a table with
  such a column that has no text left is not among the tables of the model.)
\<close>

text \<open>\<open>df[col]\<close>: the column of that name, KeyError when there is none.\<close>

definition getitem :: "dataframe \<Rightarrow> string \<Rightarrow> error + series" where
  "getitem df col = (case map_of df col of None \<Rightarrow> Inl KeyError | Some s \<Rightarrow> Inr s)"

text \<open>
  \<open>df[col] = values\<close>: the column is replaced where it stands, or added as the last
  column when the table has none of that name.
\<close>

definition setitem :: "dataframe \<Rightarrow> string \<Rightarrow> series \<Rightarrow> dataframe" where
  "setitem df col s = AList.update col s df"

text \<open>\<open>df[mask]\<close> for a boolean mask: the rows where the mask is True, in every column.\<close>

definition select_rows :: "bool list \<Rightarrow> series \<Rightarrow> series" where
  "select_rows keep s = map snd (filter fst (zip keep s))"

definition mask_rows :: "dataframe \<Rightarrow> bool list \<Rightarrow> dataframe" where
  "mask_rows df keep = map (\<lambda>(c, s). (c, select_rows keep s)) df"

text \<open>
  \<open>series.str\<close>: the accessor is there for a column of objects whose values, the
  missing ones apart, are not all numbers. Such a column holds a text value or nothing
  but \<open>None\<close> (an empty column too); for any other column pandas raises AttributeError.
\<close>

fun is_text :: "cell \<Rightarrow> bool" where
  "is_text (Str s) = True"
| "is_text (Num n) = False"
| "is_text NaN = False"
| "is_text PyNone = False"

definition str_accessor :: "series \<Rightarrow> error + series" where
  "str_accessor s =
     (if list_ex is_text s \<or> list_all (\<lambda>c. c = PyNone) s then Inr s else Inl AttributeError)"

text \<open>
  \<open>re.compile(pat)\<close>: the pattern compiled to its search, a predicate on texts, or
  no result when \<open>re\<close> rejects the pattern (\<open>re.error\<close>). A pattern with none of
  the special characters of \<open>re\<close> searches for itself as plain text, case sensitive;
  the remedy types of the scripts are such patterns. For any other pattern the search
  is the one of the regular-expression engine, which is code of the Python library:
  it is the parameter \<open>rx\<close> of every function that searches.
\<close>

type_synonym regex_engine = "string \<Rightarrow> (string \<Rightarrow> bool) option"

definition regex_special :: "char \<Rightarrow> bool" where
  "regex_special c = (c \<in> set ''.^$*+?{}[]|()'' \<or> c = CHR 0x5C)"

definition re_compile :: "regex_engine \<Rightarrow> string \<Rightarrow> (string \<Rightarrow> bool) option" where
  "re_compile rx pat = (if list_ex regex_special pat then rx pat else Some (contains_sub pat))"

text \<open>
  \<open>Series.str.contains(pat)\<close>: the accessor, then the pattern compiled, then the
  search on each element. An element that is not text gives a missing result
  (\<open>None\<close> here).
\<close>

fun contains_elem :: "(string \<Rightarrow> bool) \<Rightarrow> cell \<Rightarrow> bool option" where
  "contains_elem search (Str s) = Some (search s)"
| "contains_elem search (Num n) = None"
| "contains_elem search NaN = None"
| "contains_elem search PyNone = None"

definition str_contains :: "regex_engine \<Rightarrow> string \<Rightarrow> series \<Rightarrow> error + bool option list" where
  "str_contains rx pat s =
     (case str_accessor s of
        Inl e \<Rightarrow> Inl e
      | Inr values \<Rightarrow>
          (case re_compile rx pat of
             None \<Rightarrow> Inl ReError
           | Some search \<Rightarrow> Inr (map (contains_elem search) values)))"

text \<open>\<open>na=False\<close>: a missing result counts as False.\<close>

definition na_false :: "bool option list \<Rightarrow> bool list" where
  "na_false r = map (\<lambda>x. x = Some True) r"

text \<open>
  The groups of \<open>groupby\<close>: the distinct values of the key column that are not missing
  (\<open>dropna=True\<close> is the default), ordered by key, numbers before text.
\<close>

fun group_order :: "cell \<Rightarrow> nat \<times> int \<times> string" where
  "group_order (Num n) = (0, n, [])"
| "group_order (Str s) = (1, 0, s)"
| "group_order NaN = (2, 0, [])"
| "group_order PyNone = (2, 0, [])"

definition group_keys :: "series \<Rightarrow> series" where
  "group_keys s = sort_key group_order (remdups (filter (\<lambda>x. \<not> is_na x) s))"

text \<open>\<open>df.groupby(col).size()\<close>: each group with its number of rows.\<close>

definition groupby_size :: "series \<Rightarrow> (cell \<times> nat) list" where
  "groupby_size s = map (\<lambda>k. (k, count_list s k)) (group_keys s)"

text \<open>
  \<open>df.groupby([col1, col2]).size().unstack(fill_value=0)\<close>: a row with a missing
  value in either key column is in no group; the result has one row per value of the
  first key (the index), one column per value of the second, and the number of rows of
  the pair in each cell, 0 for a pair that does not occur.
\<close>

definition size_unstack :: "series \<Rightarrow> series \<Rightarrow> series \<times> (cell \<times> series) list" where
  "size_unstack keys1 keys2 =
     (let rows = filter (\<lambda>(a, b). \<not> is_na a \<and> \<not> is_na b) (zip keys1 keys2);
          index = group_keys (map fst rows);
          columns = group_keys (map snd rows)
      in (index, map (\<lambda>b. (b, map (\<lambda>a. Num (int (count_list rows (a, b)))) index)) columns))"

text \<open>
  \<open>left.merge(right, how='left', left_on=..., right_on=...)\<close>. Each row of the left
  table, in order, is paired with every row of the right table that has the same key,
  or with no row when there is none. \<open>rkeys\<close> holds the key values of the right table
  and \<open>rcols\<close> the columns it contributes. The columns of a pandas table have one
  length; a position past the end of a shorter column of the model reads as missing.
  The renaming of columns whose name is in both tables is not modelled.
\<close>

definition matches :: "series \<Rightarrow> cell \<Rightarrow> nat list" where
  "matches rkeys k = map fst (filter (\<lambda>(j, rk). rk = k) (enumerate 0 rkeys))"

definition join_pairs :: "series \<Rightarrow> series \<Rightarrow> (nat \<times> nat option) list" where
  "join_pairs lkeys rkeys =
     concat (map (\<lambda>(i, k). if matches rkeys k = [] then [(i, None)]
                            else map (\<lambda>j. (i, Some j)) (matches rkeys k))
                 (enumerate 0 lkeys))"

definition nth_cell :: "series \<Rightarrow> nat \<Rightarrow> cell" where
  "nth_cell s i = (if i < length s then s ! i else NaN)"

definition take_left :: "(nat \<times> nat option) list \<Rightarrow> series \<Rightarrow> series" where
  "take_left ps s = map (\<lambda>(i, j). nth_cell s i) ps"

definition take_right :: "(nat \<times> nat option) list \<Rightarrow> series \<Rightarrow> series" where
  "take_right ps s = map (\<lambda>(i, j). case j of None \<Rightarrow> NaN | Some j' \<Rightarrow> nth_cell s j') ps"

definition merge_left :: "dataframe \<Rightarrow> string \<Rightarrow> series \<Rightarrow> dataframe \<Rightarrow> error + dataframe" where
  "merge_left left left_on rkeys rcols =
     (case getitem left left_on of
        Inl e \<Rightarrow> Inl e
      | Inr lkeys \<Rightarrow>
          (let ps = join_pairs lkeys rkeys
           in Inr (map (\<lambda>(c, s). (c, take_left ps s)) left
                   @ map (\<lambda>(c, s). (c, take_right ps s)) rcols)))"

text \<open>\<open>df.fillna(0)\<close>: every missing value, in every column, becomes 0.\<close>

definition fill_cell :: "cell \<Rightarrow> cell \<Rightarrow> cell" where
  "fill_cell v x = (if is_na x then v else x)"

definition fillna :: "cell \<Rightarrow> dataframe \<Rightarrow> dataframe" where
  "fillna v df = map (\<lambda>(c, s). (c, map (fill_cell v) s)) df"

text \<open>
  \<open>collections.Counter(items)\<close>: a dict in insertion order, so the keys stand in the
  order in which they were first met, each with the number of its occurrences.
\<close>

definition counter_add :: "'a \<Rightarrow> ('a \<times> nat) list \<Rightarrow> ('a \<times> nat) list" where
  "counter_add x acc =
     (case map_of acc x of None \<Rightarrow> acc @ [(x, 1)] | Some c \<Rightarrow> AList.update x (c + 1) acc)"

fun counter_loop :: "('a \<times> nat) list \<Rightarrow> 'a list \<Rightarrow> ('a \<times> nat) list" where
  "counter_loop acc [] = acc"
| "counter_loop acc (x # xs) = counter_loop (counter_add x acc) xs"

definition Counter :: "'a list \<Rightarrow> ('a \<times> nat) list" where
  "Counter items = counter_loop [] items"

text \<open>
  \<open>Counter.most_common(n)\<close>: the items sorted by count, largest first, by a stable
  sort (\<open>sorted(..., reverse=True)\<close> keeps items of equal count in their order), and
  the first \<open>n\<close> of them; all of them when \<open>n\<close> is None, none when \<open>n\<close> is not positive.
\<close>

definition most_common :: "int option \<Rightarrow> ('a \<times> nat) list \<Rightarrow> ('a \<times> nat) list" where
  "most_common n items =
     (let ranked = sort_key (\<lambda>(k, c). - int c) items
      in case n of None \<Rightarrow> ranked | Some n' \<Rightarrow> take (nat n') ranked)"

section \<open>prod_analysis.py: counts of chapters and products, top partners\<close>

text \<open>
  \<^verbatim>\<open>
  anti_dumping_data = data[data['Type'].str.contains("Anti-dumping")]
  anti_dumping_chapters_count = Counter(clean_and_split(anti_dumping_data['Product chapters']))
  \<close>
  and the three lines like it in \<open>main\<close>, for the remedy type \<open>remedy\<close> and the column
  \<open>col\<close>. No \<open>na\<close> is given here, so a row whose Type is not text makes the mask hold
  a missing value, and indexing with such a mask raises ValueError.
\<close>

definition filter_by_type :: "regex_engine \<Rightarrow> dataframe \<Rightarrow> string \<Rightarrow> error + dataframe" where
  "filter_by_type rx data remedy =
     (case getitem data ''Type'' of
        Inl e \<Rightarrow> Inl e
      | Inr types \<Rightarrow>
          (case str_contains rx remedy types of
             Inl e \<Rightarrow> Inl e
           | Inr r \<Rightarrow> if None \<in> set r then Inl ValueError
                      else Inr (mask_rows data (na_false r))))"

definition tokens_count ::
  "regex_engine \<Rightarrow> dataframe \<Rightarrow> string \<Rightarrow> string \<Rightarrow> error + (string \<times> nat) list" where
  "tokens_count rx data remedy col =
     (case filter_by_type rx data remedy of
        Inl e \<Rightarrow> Inl e
      | Inr remedy_data \<Rightarrow>
          (case getitem remedy_data col of
             Inl e \<Rightarrow> Inl e
           | Inr column \<Rightarrow> Inr (Counter (clean_and_split column))))"

text \<open>
  \<^verbatim>\<open>
  def get_top_partners(data, chapters, top_n=3):
      top_partners = {}
      for chapter in chapters:
          filtered_data = data[data['Product chapters'].str.contains(str(chapter), na=False)]
          partners_count = Counter(filtered_data['Trading partners'])
          top_partners[chapter] = partners_count.most_common(top_n)
      return top_partners
  \<close>
  The chapters are the tokens \<open>main\<close> passes, text values, for which \<open>str\<close> is the
  identity. \<open>matching_partners\<close> is the column \<open>filtered_data['Trading partners']\<close>.
\<close>

definition matching_partners :: "regex_engine \<Rightarrow> dataframe \<Rightarrow> string \<Rightarrow> error + series" where
  "matching_partners rx data chapter =
     (case getitem data ''Product chapters'' of
        Inl e \<Rightarrow> Inl e
      | Inr chapters_col \<Rightarrow>
          (case str_contains rx chapter chapters_col of
             Inl e \<Rightarrow> Inl e
           | Inr r \<Rightarrow> getitem (mask_rows data (na_false r)) ''Trading partners''))"

fun top_partners_loop ::
  "regex_engine \<Rightarrow> dataframe \<Rightarrow> int \<Rightarrow> (string \<times> (cell \<times> nat) list) list \<Rightarrow> string list
   \<Rightarrow> error + (string \<times> (cell \<times> nat) list) list" where
  "top_partners_loop rx data top_n top_partners [] = Inr top_partners"
| "top_partners_loop rx data top_n top_partners (chapter # chapters) =
     (case matching_partners rx data chapter of
        Inl e \<Rightarrow> Inl e
      | Inr partners \<Rightarrow>
          (let partners_count = Counter partners
           in top_partners_loop rx data top_n
                (AList.update chapter (most_common (Some top_n) partners_count) top_partners)
                chapters))"

definition get_top_partners ::
  "regex_engine \<Rightarrow> dataframe \<Rightarrow> string list \<Rightarrow> int
   \<Rightarrow> error + (string \<times> (cell \<times> nat) list) list" where
  "get_top_partners rx data chapters top_n = top_partners_loop rx data top_n [] chapters"

text \<open>The call with \<open>top_n\<close> left out: \<open>top_n=3\<close>.\<close>

definition get_top_partners_default ::
  "regex_engine \<Rightarrow> dataframe \<Rightarrow> string list \<Rightarrow> error + (string \<times> (cell \<times> nat) list) list" where
  "get_top_partners_default rx data chapters = get_top_partners rx data chapters 3"

text \<open>
  \<open>main\<close> calls \<open>get_top_partners\<close> with the chapters that are the tokens of the
  chapter lists, in the order of \<open>most_common()\<close>:
  \<^verbatim>\<open>
  top_anti_dumping_chapters = [item[0] for item in anti_dumping_chapters_count.most_common()]
  top_partners_anti_dumping = get_top_partners(anti_dumping_data, top_anti_dumping_chapters)
  \<close>
\<close>

definition top_chapters :: "(string \<times> nat) list \<Rightarrow> string list" where
  "top_chapters chapters_count = map fst (most_common None chapters_count)"

section \<open>add_cvd_recepient_map.py: cases against each trading partner\<close>

text \<open>
  \<^verbatim>\<open>
  df_filtered = df[df['Type'].str.contains(remedy_type, na=False)]
  cases_count = df_filtered.groupby('Trading partners').size().reset_index(name='case_count')
  \<close>
\<close>

definition cases_count_trading_partners ::
  "regex_engine \<Rightarrow> dataframe \<Rightarrow> string \<Rightarrow> error + (cell \<times> nat) list" where
  "cases_count_trading_partners rx df remedy_type =
     (case getitem df ''Type'' of
        Inl e \<Rightarrow> Inl e
      | Inr types \<Rightarrow>
          (case str_contains rx remedy_type types of
             Inl e \<Rightarrow> Inl e
           | Inr r \<Rightarrow>
               (let df_filtered = mask_rows df (na_false r)
                in case getitem df_filtered ''Trading partners'' of
                     Inl e \<Rightarrow> Inl e
                   | Inr partners \<Rightarrow> Inr (groupby_size partners))))"

text \<open>
  \<^verbatim>\<open>
  world = gpd.read_file(gpd.datasets.get_path('naturalearth_lowres'))
  world_with_data = world.merge(cases_count, how='left', left_on='name', right_on='Trading partners')
  world_with_data.fillna(0, inplace=True)
  return world_with_data
  \<close>
  The reference map \<open>world\<close> is read from a file, so it is a parameter here. The
  function returns the table \<open>df\<close> as it is after the call together with its result:
  no statement of this function assigns to \<open>df\<close>.
\<close>

definition get_world_with_data_trading_partners ::
  "regex_engine \<Rightarrow> dataframe \<Rightarrow> dataframe \<Rightarrow> string \<Rightarrow> dataframe \<times> (error + dataframe)" where
  "get_world_with_data_trading_partners rx df world remedy_type =
     (df,
      case cases_count_trading_partners rx df remedy_type of
        Inl e \<Rightarrow> Inl e
      | Inr counts \<Rightarrow>
          (let cases_count = [(''Trading partners'', map fst counts),
                              (''case_count'', map (\<lambda>(k, n). Num (int n)) counts)]
           in case merge_left world ''name'' (map fst counts) cases_count of
                Inl e \<Rightarrow> Inl e
              | Inr world_with_data \<Rightarrow> Inr (fillna (Num 0) world_with_data)))"

section \<open>add_cvd_world_map.py: cases brought by each member\<close>

text \<open>
  \<^verbatim>\<open>df['Remedy Type'] = df['Type'].str.split('/').str[-1].str.strip()\<close>
  on one element: the last piece, trimmed, for a text; \<open>nan\<close> for a number and for
  \<open>nan\<close>; \<open>None\<close> stays \<open>None\<close>.
\<close>

fun remedy_of :: "cell \<Rightarrow> cell" where
  "remedy_of (Str s) = Str (strip (last (str_split ''/'' s)))"
| "remedy_of (Num n) = NaN"
| "remedy_of NaN = NaN"
| "remedy_of PyNone = PyNone"

text \<open>
  \<^verbatim>\<open>
  def get_world_with_data(df, remedy_type):
      df['Remedy Type'] = df['Type'].str.split('/').str[-1].str.strip()
      cases_count = df.groupby(['Member/Observer',
                                'Remedy Type']).size().unstack(fill_value=0)
      world = gpd.read_file(gpd.datasets.get_path('naturalearth_lowres'))
      world_with_data = world.merge(cases_count[[remedy_type]],
                                    how='left',
                                    left_on='name',
                                    right_on='Member/Observer')
      world_with_data.fillna(0, inplace=True)
      return world_with_data
  \<close>
  The first statement assigns a column of the caller's table, so the function returns
  the table as it is after the call together with its result. When the \<open>Type\<close>
  column is not there or has no \<open>.str\<close> accessor, the statement raises before it
  assigns. \<open>cases_count\<close> is the
  table \<open>cases_count[[remedy_type]]\<close>: its index and its one column, KeyError when no
  column has that name. The key \<open>Member/Observer\<close> is the index of the right table; the
  merge brings the column \<open>remedy_type\<close> only.
\<close>

definition cases_count_remedy :: "dataframe \<Rightarrow> string \<Rightarrow> error + series \<times> series" where
  "cases_count_remedy df1 remedy_type =
     (case getitem df1 ''Member/Observer'' of
        Inl e \<Rightarrow> Inl e
      | Inr members \<Rightarrow>
          (case getitem df1 ''Remedy Type'' of
             Inl e \<Rightarrow> Inl e
           | Inr remedies \<Rightarrow>
               (let (index, columns) = size_unstack members remedies
                in case map_of columns (Str remedy_type) of
                     None \<Rightarrow> Inl KeyError
                   | Some counts \<Rightarrow> Inr (index, counts))))"

definition get_world_with_data ::
  "dataframe \<Rightarrow> dataframe \<Rightarrow> string \<Rightarrow> dataframe \<times> (error + dataframe)" where
  "get_world_with_data df world remedy_type =
     (case getitem df ''Type'' of
        Inl e \<Rightarrow> (df, Inl e)
      | Inr types \<Rightarrow>
          (case str_accessor types of
             Inl e \<Rightarrow> (df, Inl e)
           | Inr values \<Rightarrow>
               (let df1 = setitem df ''Remedy Type'' (map remedy_of values)
                in (df1,
                    case cases_count_remedy df1 remedy_type of
                      Inl e \<Rightarrow> Inl e
                    | Inr (index, counts) \<Rightarrow>
                        (case merge_left world ''name'' index [(remedy_type, counts)] of
                           Inl e \<Rightarrow> Inl e
                         | Inr world_with_data \<Rightarrow> Inr (fillna (Num 0) world_with_data))))))"


section \<open>Notions used in the statements\<close>

text \<open>
  When the keys of the right table are distinct, a key of the left table matches at most
  one of its rows: \<open>match1\<close> is that row, \<open>right_cell\<close> the value the join puts
  in a right column for that key, and \<open>joined\<close> the table the left join builds.
\<close>

definition match1 :: "series \<Rightarrow> cell \<Rightarrow> nat option" where
  "match1 rkeys k = (case matches rkeys k of [] \<Rightarrow> None | j # js \<Rightarrow> Some j)"

definition right_cell :: "series \<Rightarrow> series \<Rightarrow> cell \<Rightarrow> cell" where
  "right_cell rkeys s k = (case match1 rkeys k of None \<Rightarrow> NaN | Some j \<Rightarrow> nth_cell s j)"

definition joined :: "dataframe \<Rightarrow> series \<Rightarrow> series \<Rightarrow> dataframe \<Rightarrow> dataframe" where
  "joined world names rkeys rcols =
     map (\<lambda>(c, s). (c, map (nth_cell s) [0..<length names])) world
     @ map (\<lambda>(c, s). (c, map (right_cell rkeys s) names)) rcols"

text \<open>
  The examples search for plain patterns only, which no engine is asked about; they
  are stated with the engine that accepts no pattern.
\<close>

definition no_regex :: regex_engine where
  "no_regex pat = None"

text \<open>
  \<open>first_seen\<close> lists the distinct values of a list in the order in which they are
  first met; \<open>count_of\<close> reads a count in a list of (key, count) pairs, 0 for a key
  that is not there.
\<close>

fun first_seen :: "'a list \<Rightarrow> 'a list" where
  "first_seen [] = []"
| "first_seen (x # xs) = x # filter (\<lambda>y. y \<noteq> x) (first_seen xs)"

definition count_of :: "('a \<times> nat) list \<Rightarrow> 'a \<Rightarrow> nat" where
  "count_of acc k = (case map_of acc k of None \<Rightarrow> 0 | Some c \<Rightarrow> c)"

text \<open>
  A table for the top partners: six cases, five of them with the chapter code 72 in
  their chapter list, against four partners.
\<close>

definition ranking_cases :: dataframe where
  "ranking_cases =
     [(''Product chapters'',
         [Str ''72'', Str ''72, 73'', Str ''72'', Str ''72'', Str ''29'', Str ''72'']),
      (''Trading partners'',
         [Str ''China'', Str ''India'', Str ''Brazil'', Str ''India'', Str ''China'', Str ''Peru''])]"

text \<open>
  Tables for the counts: one anti-dumping case with two chapters and no trading
  partner; and three cases with their chapter lists, one of them missing.
\<close>

definition two_chapter_case :: dataframe where
  "two_chapter_case =
     [(''Type'', [Str ''Anti-dumping'']),
      (''Trading partners'', [NaN]),
      (''Product chapters'', [Str ''62, 63''])]"

definition chapter_cases :: dataframe where
  "chapter_cases =
     [(''Type'', [Str ''Anti-dumping'', Str ''Anti-dumping'', Str ''Countervailing'']),
      (''Product chapters'', [Str ''62, 63'', NaN, Str ''72''])]"

text \<open>
  The scenario of the specification, with the columns both map scripts read: two
  anti-dumping cases and one countervailing case, and a reference map of three
  entities, one of them with a missing population figure. The table
  \<open>anti_dumping_only_cases\<close> holds no countervailing case.
\<close>

definition scenario_cases :: dataframe where
  "scenario_cases =
     [(''Type'', [Str ''Anti-dumping'', Str ''Anti-dumping'', Str ''Countervailing'']),
      (''Trading partners'', [Str ''India'', Str ''India'', Str ''China'']),
      (''Member/Observer'', [Str ''Brazil'', Str ''Brazil'', Str ''India''])]"

definition scenario_world :: dataframe where
  "scenario_world =
     [(''name'', [Str ''India'', Str ''China'', Str ''Brazil'']),
      (''pop_est'', [Num 1380, NaN, Num 212])]"

definition anti_dumping_only_cases :: dataframe where
  "anti_dumping_only_cases =
     [(''Type'', [Str ''Anti-dumping'', Str ''Anti-dumping'']),
      (''Trading partners'', [Str ''India'', Str ''India'']),
      (''Member/Observer'', [Str ''Brazil'', Str ''Brazil''])]"

text \<open>
  A table whose types are written with the member in front and with blanks, as the
  \<open>Type\<close> column can be, with one empty cell and one \<open>None\<close>; a table whose
  \<open>Type\<close> column has no text; and a table of two anti-dumping cases, one of the
  chapter 2 and one of the chapter 72.
\<close>

definition member_type_cases :: dataframe where
  "member_type_cases =
     [(''Type'', [Str ''India / Anti-dumping '', Str ''Countervailing'', NaN, PyNone]),
      (''Member/Observer'', [Str ''India'', Str ''China'', Str ''Peru'', Str ''Chile''])]"

definition no_text_cases :: dataframe where
  "no_text_cases =
     [(''Type'', [NaN, NaN]),
      (''Member/Observer'', [Str ''India'', Str ''China''])]"

definition chapter_two_cases :: dataframe where
  "chapter_two_cases =
     [(''Type'', [Str ''Anti-dumping'', Str ''Anti-dumping'']),
      (''Product chapters'', [Str ''2'', Str ''72'']),
      (''Trading partners'', [Str ''India'', Str ''China''])]"

text \<open>The joined tables of the scenario, for the remedy type \<open>Anti-dumping\<close>.\<close>

definition scenario_names :: series where
  "scenario_names = [Str ''India'', Str ''China'', Str ''Brazil'']"

definition scenario_joined_partners :: dataframe where
  "scenario_joined_partners =
     [(''name'', [Str ''India'', Str ''China'', Str ''Brazil'']),
      (''pop_est'', [Num 1380, Num 0, Num 212]),
      (''Trading partners'', [Str ''India'', Num 0, Num 0]),
      (''case_count'', [Num 2, Num 0, Num 0])]"

definition scenario_joined_members :: dataframe where
  "scenario_joined_members =
     [(''name'', [Str ''India'', Str ''China'', Str ''Brazil'']),
      (''pop_est'', [Num 1380, Num 0, Num 212]),
      (''Anti-dumping'', [Num 0, Num 0, Num 2])]"

section \<open>Lemmas about strings\<close>

lemma strip_no_leading: "strip s \<noteq> [] \<Longrightarrow> \<not> is_space (hd (strip s))"
proof -
  assume ne: "strip s \<noteq> []"
  let ?t = "dropWhile is_space s"
  let ?u = "dropWhile is_space (rev ?t)"
  have u: "?u \<noteq> []" using ne by (simp add: strip_def)
  have t: "?t \<noteq> []"
  proof
    assume e: "?t = []"
    have "?u = []" unfolding e by simp
    with u show False by simp
  qed
  have "hd (rev ?u) = last ?u" using u by (simp add: hd_rev)
  also have "last ?u = last (rev ?t)"
    using u by (metis last_appendR takeWhile_dropWhile_id)
  also have "\<dots> = hd ?t" using t by (simp add: last_rev)
  finally have "hd (strip s) = hd ?t" by (simp add: strip_def)
  moreover have "\<not> is_space (hd ?t)" using t by (rule hd_dropWhile)
  ultimately show ?thesis by simp
qed

lemma strip_no_trailing: "strip s \<noteq> [] \<Longrightarrow> \<not> is_space (last (strip s))"
proof -
  assume ne: "strip s \<noteq> []"
  let ?u = "dropWhile is_space (rev (dropWhile is_space s))"
  have u: "?u \<noteq> []" using ne by (simp add: strip_def)
  have "last (rev ?u) = hd ?u" using u by (simp add: last_rev)
  moreover have "\<not> is_space (hd ?u)" using u by (rule hd_dropWhile)
  ultimately show ?thesis by (simp add: strip_def)
qed

lemma dropWhile_id_hd: "xs = [] \<or> \<not> P (hd xs) \<Longrightarrow> dropWhile P xs = xs"
  by (cases xs) auto

lemma strip_idem: "strip (strip s) = strip s"
proof (cases "strip s = []")
  case True
  have "strip [] = []" by (simp add: strip_def)
  with True show ?thesis by simp
next
  case False
  have a: "dropWhile is_space (strip s) = strip s"
    using strip_no_leading [OF False] by (simp add: dropWhile_id_hd)
  have "hd (rev (strip s)) = last (strip s)" using False by (simp add: hd_rev)
  then have b: "dropWhile is_space (rev (strip s)) = rev (strip s)"
    using strip_no_trailing [OF False] by (simp add: dropWhile_id_hd)
  show ?thesis
    unfolding strip_def [of "strip s"] a b by simp
qed

lemma split_acc_nonempty: "split_acc sep acc s \<noteq> []"
  by (induction sep acc s rule: split_acc.induct) auto

lemma takeWhile_neq_all: "c \<notin> set xs \<Longrightarrow> takeWhile (\<lambda>x. x \<noteq> c) xs = xs"
  by (induction xs) auto

lemma takeWhile_neq_stop:
  "c \<notin> set xs \<Longrightarrow> takeWhile (\<lambda>x. x \<noteq> c) (xs @ c # ys) = xs"
  by (induction xs) auto

lemma last_split_acc:
  "c \<notin> set acc \<Longrightarrow>
   last (split_acc [c] acc s) = rev (takeWhile (\<lambda>x. x \<noteq> c) (rev s @ acc))"
proof (induction s arbitrary: acc)
  case Nil
  then show ?case by (simp add: takeWhile_neq_all)
next
  case (Cons x s)
  show ?case
  proof (cases "x = c")
    case True
    have ne: "split_acc [c] [] s \<noteq> []"
      by (rule split_acc_nonempty)
    have "last (split_acc [c] acc (x # s)) = last (split_acc [c] [] s)"
      using True ne by simp
    also have "\<dots> = rev (takeWhile (\<lambda>x. x \<noteq> c) (rev s @ []))"
      by (rule Cons.IH) simp
    also have "takeWhile (\<lambda>x. x \<noteq> c) (rev s @ []) = takeWhile (\<lambda>x. x \<noteq> c) (rev (x # s) @ acc)"
      using True by (simp add: takeWhile_append)
    finally show ?thesis .
  next
    case False
    then have "last (split_acc [c] acc (x # s)) = last (split_acc [c] (x # acc) s)"
      by simp
    also have "\<dots> = rev (takeWhile (\<lambda>x. x \<noteq> c) (rev s @ x # acc))"
      by (rule Cons.IH) (use False Cons.prems in auto)
    finally show ?thesis by simp
  qed
qed

lemma last_piece_after: "c \<notin> set b \<Longrightarrow> last (str_split [c] (a @ c # b)) = b"
proof -
  assume "c \<notin> set b"
  then have "takeWhile (\<lambda>x. x \<noteq> c) (rev b @ c # rev a) = rev b"
    by (intro takeWhile_neq_stop) simp
  then show ?thesis by (simp add: str_split_def last_split_acc)
qed

lemma last_piece_whole: "c \<notin> set s \<Longrightarrow> last (str_split [c] s) = s"
  by (simp add: str_split_def last_split_acc takeWhile_neq_all)

lemma remedy_of_props:
  "(\<forall>a b. c = Str (a @ ''/'' @ b) \<and> CHR ''/'' \<notin> set b \<longrightarrow> remedy_of c = Str (strip b))
   \<and> (\<forall>s. c = Str s \<and> CHR ''/'' \<notin> set s \<longrightarrow> remedy_of c = Str (strip s))
   \<and> (\<forall>t. remedy_of c = Str t \<longrightarrow> strip t = t \<and> is_text c)
   \<and> (c = PyNone \<longrightarrow> remedy_of c = PyNone)
   \<and> (c = NaN \<or> (\<exists>n. c = Num n) \<longrightarrow> remedy_of c = NaN)"
proof (intro conjI allI impI)
  fix a b assume h: "c = Str (a @ ''/'' @ b) \<and> CHR ''/'' \<notin> set b"
  then have "last (str_split ''/'' (a @ CHR ''/'' # b)) = b"
    by (intro last_piece_after) simp
  with h show "remedy_of c = Str (strip b)" by simp
next
  fix s assume h: "c = Str s \<and> CHR ''/'' \<notin> set s"
  then have "last (str_split ''/'' s) = s" by (intro last_piece_whole) simp
  with h show "remedy_of c = Str (strip s)" by simp
next
  fix t assume "remedy_of c = Str t"
  then show "strip t = t" by (cases c) (auto simp: strip_idem)
next
  fix t assume "remedy_of c = Str t"
  then show "is_text c" by (cases c) auto
next
  assume "c = PyNone" then show "remedy_of c = PyNone" by simp
next
  assume "c = NaN \<or> (\<exists>n. c = Num n)" then show "remedy_of c = NaN" by auto
qed

section \<open>Lemmas about tables and the left join\<close>

lemma map_of_mask_rows: "map_of (mask_rows df keep) c = map_option (select_rows keep) (map_of df c)"
  by (induction df) (auto simp: mask_rows_def)

lemma getitem_mask_rows:
  "getitem (mask_rows df keep) c =
     (case getitem df c of Inl e \<Rightarrow> Inl e | Inr s \<Rightarrow> Inr (select_rows keep s))"
  by (simp add: getitem_def map_of_mask_rows split: option.splits)

lemma select_rows_map:
  "select_rows (map P ts) s = map snd (filter (\<lambda>(t, x). P t) (zip ts s))"
proof (induction ts arbitrary: s)
  case Nil
  then show ?case by (simp add: select_rows_def)
next
  case (Cons t ts)
  then show ?case by (cases s) (auto simp: select_rows_def)
qed

lemma map_of_setitem: "map_of (setitem df col s) c = (if c = col then Some s else map_of df c)"
  by (simp add: setitem_def update_conv')

lemma length_matches_gen:
  "length (map fst (filter (\<lambda>(j, rk). rk = k) (enumerate n rkeys))) = length (filter (\<lambda>rk. rk = k) rkeys)"
  by (induction rkeys arbitrary: n) auto

lemma length_matches: "length (matches rkeys k) = length (filter (\<lambda>rk. rk = k) rkeys)"
  unfolding matches_def by (rule length_matches_gen)

lemma distinct_filter_eq_le1: "distinct xs \<Longrightarrow> length (filter (\<lambda>x. x = k) xs) \<le> Suc 0"
  by (induction xs) (auto simp: filter_empty_conv)

lemma matches_le1: "distinct rkeys \<Longrightarrow> length (matches rkeys k) \<le> Suc 0"
  by (simp add: length_matches distinct_filter_eq_le1)

lemma matches_Nil: "k \<notin> set rkeys \<Longrightarrow> matches rkeys k = []"
proof -
  assume "k \<notin> set rkeys"
  then have "filter (\<lambda>rk. rk = k) rkeys = []" by (auto simp: filter_empty_conv)
  then have "length (matches rkeys k) = 0" by (simp add: length_matches)
  then show ?thesis by simp
qed

lemma matches_nth_gen:
  "j \<in> set (map fst (filter (\<lambda>(j, rk). rk = k) (enumerate n rkeys)))
   \<Longrightarrow> n \<le> j \<and> j - n < length rkeys \<and> rkeys ! (j - n) = k"
  by (auto simp: in_set_enumerate_eq)

lemma matches_nth: "j \<in> set (matches rkeys k) \<Longrightarrow> j < length rkeys \<and> rkeys ! j = k"
  using matches_nth_gen [of j k 0 rkeys] by (simp add: matches_def)

lemma join_pairs_step:
  assumes "distinct rkeys"
  shows "(if matches rkeys k = [] then [(i, None)] else map (\<lambda>j. (i, Some j)) (matches rkeys k))
         = [(i, match1 rkeys k)]"
proof (cases "matches rkeys k")
  case Nil
  then show ?thesis by (simp add: match1_def)
next
  case (Cons j js)
  with matches_le1 [OF assms, of k] have "js = []" by simp
  with Cons show ?thesis by (simp add: match1_def)
qed

lemma join_pairs_distinct:
  assumes "distinct rkeys"
  shows "join_pairs lkeys rkeys = map (\<lambda>(i, k). (i, match1 rkeys k)) (enumerate 0 lkeys)"
proof -
  have "concat (map (\<lambda>(i, k). if matches rkeys k = [] then [(i, None)]
                            else map (\<lambda>j. (i, Some j)) (matches rkeys k)) xs)
        = map (\<lambda>(i, k). (i, match1 rkeys k)) xs" for xs :: "(nat \<times> cell) list"
    by (induction xs) (auto simp: join_pairs_step [OF assms])
  then show ?thesis by (simp add: join_pairs_def)
qed

lemma length_join_pairs: "distinct rkeys \<Longrightarrow> length (join_pairs lkeys rkeys) = length lkeys"
  by (simp add: join_pairs_distinct)

lemma take_left_join:
  assumes "distinct rkeys"
  shows "take_left (join_pairs lkeys rkeys) s = map (nth_cell s) [0..<length lkeys]"
proof -
  have "take_left ps s = map (nth_cell s) (map fst ps)" for ps
    by (simp add: take_left_def case_prod_beta comp_def)
  moreover have "map fst (join_pairs lkeys rkeys) = map fst (enumerate 0 lkeys)"
    by (simp add: join_pairs_distinct [OF assms] case_prod_beta comp_def)
  ultimately show ?thesis by (simp del: map_map)
qed

lemma map_nth_cell: "map (nth_cell s) [0..<length s] = s"
proof -
  have "map (nth_cell s) [0..<length s] = map ((!) s) [0..<length s]"
    by (rule map_cong) (simp_all add: nth_cell_def)
  then show ?thesis by (simp add: map_nth)
qed

lemma take_left_join_same:
  "distinct rkeys \<Longrightarrow> length s = length lkeys \<Longrightarrow> take_left (join_pairs lkeys rkeys) s = s"
  using map_nth_cell [of s] by (simp add: take_left_join)

lemma take_right_join:
  assumes "distinct rkeys"
  shows "take_right (join_pairs lkeys rkeys) s = map (right_cell rkeys s) lkeys"
proof -
  have "map (\<lambda>(i, j). case j of None \<Rightarrow> NaN | Some j' \<Rightarrow> nth_cell s j')
          (map (\<lambda>(i, k). (i, match1 rkeys k)) (enumerate n lkeys))
        = map (right_cell rkeys s) lkeys" for n
    by (induction lkeys arbitrary: n) (auto simp: right_cell_def)
  from this [of 0] show ?thesis
    by (simp add: take_right_def join_pairs_distinct [OF assms])
qed

lemma right_cell_absent: "k \<notin> set rkeys \<Longrightarrow> right_cell rkeys s k = NaN"
  by (simp add: right_cell_def match1_def matches_Nil)

lemma right_cell_present:
  assumes "distinct rkeys" "j < length rkeys" "length s = length rkeys"
  shows "right_cell rkeys s (rkeys ! j) = s ! j"
proof -
  let ?k = "rkeys ! j"
  have "filter (\<lambda>rk. rk = ?k) rkeys \<noteq> []"
    using assms(2) by (auto simp: filter_empty_conv)
  then have "matches rkeys ?k \<noteq> []" using length_matches [of rkeys ?k] by auto
  then obtain j' js where m: "matches rkeys ?k = j' # js" by (cases "matches rkeys ?k") auto
  then have "j' \<in> set (matches rkeys ?k)" by simp
  from matches_nth [OF this] have j': "j' < length rkeys" "rkeys ! j' = rkeys ! j" by auto
  with assms(1,2) have "j' = j" by (simp add: nth_eq_iff_index_eq)
  with m assms show ?thesis by (simp add: right_cell_def match1_def nth_cell_def)
qed

lemma distinct_group_keys: "distinct (group_keys s)"
  by (simp add: group_keys_def)

lemma set_group_keys: "set (group_keys s) = {x \<in> set s. \<not> is_na x}"
  by (auto simp: group_keys_def)

lemma map_fst_groupby_size: "map fst (groupby_size s) = group_keys s"
  by (simp add: groupby_size_def comp_def)

lemma distinct_keys_groupby_size: "distinct (map fst (groupby_size s))"
  by (simp add: map_fst_groupby_size distinct_group_keys)

lemma merge_left_distinct:
  assumes "getitem world ''name'' = Inr names" "distinct rkeys"
  shows "merge_left world ''name'' rkeys rcols = Inr (joined world names rkeys rcols)"
  using assms
  by (simp add: merge_left_def joined_def take_left_join take_right_join)

lemma merge_left_KeyError:
  "getitem world ''name'' = Inl e \<Longrightarrow> merge_left world ''name'' rkeys rcols = Inl e"
  by (simp add: merge_left_def)

lemma getitem_cases: "(\<exists>s. getitem df c = Inr s) \<or> getitem df c = Inl KeyError"
  by (simp add: getitem_def split: option.splits)

lemma recipient_result:
  assumes "cases_count_trading_partners rx df rt = Inr counts"
    and "getitem world ''name'' = Inr names"
  shows "snd (get_world_with_data_trading_partners rx df world rt) =
     Inr (fillna (Num 0) (joined world names (map fst counts)
        [(''Trading partners'', map fst counts),
         (''case_count'', map (\<lambda>(k, n). Num (int n)) counts)]))"
proof -
  have "\<exists>s. counts = groupby_size s"
    using assms(1)
    by (auto simp: cases_count_trading_partners_def Let_def split: sum.splits)
  then have "distinct (map fst counts)" by (auto simp: distinct_keys_groupby_size)
  from merge_left_distinct [OF assms(2) this] assms(1) show ?thesis
    by (simp add: get_world_with_data_trading_partners_def)
qed

lemma recipient_Inr:
  assumes "snd (get_world_with_data_trading_partners rx df world rt) = Inr out"
  shows "\<exists>counts names. cases_count_trading_partners rx df rt = Inr counts
           \<and> getitem world ''name'' = Inr names"
proof -
  from assms obtain counts where c: "cases_count_trading_partners rx df rt = Inr counts"
    by (auto simp: get_world_with_data_trading_partners_def split: sum.splits)
  from assms c obtain names where "getitem world ''name'' = Inr names"
    by (auto simp: get_world_with_data_trading_partners_def merge_left_def split: sum.splits)
  with c show ?thesis by blast
qed

lemma size_unstack_index: "size_unstack ms rs = (index, columns) \<Longrightarrow> distinct index"
  by (auto simp: size_unstack_def Let_def distinct_group_keys)

lemma cases_count_remedy_distinct:
  "cases_count_remedy df1 rt = Inr (index, counts) \<Longrightarrow> distinct index"
  by (auto simp: cases_count_remedy_def Let_def size_unstack_index
      split: sum.splits prod.splits option.splits)

lemma str_accessor_Inr: "str_accessor s = Inr v \<Longrightarrow> v = s"
  by (simp add: str_accessor_def split: if_splits)

lemma world_map_result:
  assumes "getitem df ''Type'' = Inr types"
    and "str_accessor types = Inr types"
    and "cases_count_remedy (setitem df ''Remedy Type'' (map remedy_of types)) rt = Inr (index, counts)"
    and "getitem world ''name'' = Inr names"
  shows "snd (get_world_with_data df world rt) =
     Inr (fillna (Num 0) (joined world names index [(rt, counts)]))"
  using assms merge_left_distinct [OF assms(4) cases_count_remedy_distinct [OF assms(3)]]
  by (simp add: get_world_with_data_def Let_def)

lemma world_map_Inr:
  assumes "snd (get_world_with_data df world rt) = Inr out"
  shows "\<exists>types index counts names. getitem df ''Type'' = Inr types
     \<and> str_accessor types = Inr types
     \<and> cases_count_remedy (setitem df ''Remedy Type'' (map remedy_of types)) rt = Inr (index, counts)
     \<and> getitem world ''name'' = Inr names"
proof -
  from assms obtain types where t: "getitem df ''Type'' = Inr types"
    by (auto simp: get_world_with_data_def split: sum.splits)
  from assms t obtain v where "str_accessor types = Inr v"
    by (auto simp: get_world_with_data_def split: sum.splits)
  with str_accessor_Inr [of types v] have a: "str_accessor types = Inr types" by simp
  let ?df1 = "setitem df ''Remedy Type'' (map remedy_of types)"
  from assms t a obtain index counts where c: "cases_count_remedy ?df1 rt = Inr (index, counts)"
    by (auto simp: get_world_with_data_def Let_def split: sum.splits)
  from assms t a c obtain names where "getitem world ''name'' = Inr names"
    by (auto simp: get_world_with_data_def Let_def merge_left_def split: sum.splits)
  with t a c show ?thesis by blast
qed

lemma fst_world_map:
  "getitem df ''Type'' = Inr types \<Longrightarrow> str_accessor types = Inr types \<Longrightarrow>
   fst (get_world_with_data df world rt) = setitem df ''Remedy Type'' (map remedy_of types)"
  by (simp add: get_world_with_data_def Let_def)

lemma joined_lengths:
  "(c, s) \<in> set (fillna v (joined world names rkeys rcols)) \<Longrightarrow> length s = length names"
  by (auto simp: fillna_def joined_def)

lemma joined_no_na:
  "\<not> is_na v \<Longrightarrow> (c, s) \<in> set (fillna v df) \<Longrightarrow> x \<in> set s \<Longrightarrow> \<not> is_na x"
  by (auto simp: fillna_def fill_cell_def)

lemma map_of_fillna: "map_of (fillna v df) c = map_option (map (fill_cell v)) (map_of df c)"
  by (induction df) (auto simp: fillna_def)

lemma map_of_joined_left:
  "map_of world c = Some s \<Longrightarrow>
   map_of (joined world names rkeys rcols) c = Some (map (nth_cell s) [0..<length names])"
proof -
  assume a: "map_of world c = Some s"
  have "map_of (map (\<lambda>(c, s). (c, map (nth_cell s) [0..<length names])) world) c
        = Some (map (nth_cell s) [0..<length names])"
    using a by (induction world) auto
  then show ?thesis by (simp add: joined_def)
qed

lemma map_of_joined_right:
  "map_of world c = None \<Longrightarrow>
   map_of (joined world names rkeys rcols) c
     = map_option (\<lambda>s. map (right_cell rkeys s) names) (map_of rcols c)"
proof -
  assume a: "map_of world c = None"
  have l: "map_of (map (\<lambda>(c, s). (c, map (nth_cell s) [0..<length names])) world) c = None"
    using a by (induction world) (auto split: if_splits)
  have r: "map_of (map (\<lambda>(c, s). (c, map (right_cell rkeys s) names)) rcols) c
        = map_option (\<lambda>s. map (right_cell rkeys s) names) (map_of rcols c)"
    by (induction rcols) auto
  show ?thesis by (simp add: joined_def map_add_def l r)
qed

lemma joined_name_column:
  assumes "getitem world ''name'' = Inr names"
  shows "getitem (fillna v (joined world names rkeys rcols)) ''name'' = Inr (map (fill_cell v) names)"
proof -
  from assms have "map_of world ''name'' = Some names"
    by (simp add: getitem_def split: option.splits)
  from map_of_joined_left [OF this] show ?thesis
    by (simp add: getitem_def map_of_fillna map_nth_cell)
qed

lemma joined_world_column:
  assumes "(c, s) \<in> set world" "length s = length names"
  shows "(c, map (fill_cell v) s) \<in> set (fillna v (joined world names rkeys rcols))"
proof -
  have "(c, map (nth_cell s) [0..<length names]) \<in> set (joined world names rkeys rcols)"
    using assms(1) by (force simp: joined_def)
  then have "(c, s) \<in> set (joined world names rkeys rcols)"
    using map_nth_cell [of s] assms(2) by simp
  then show ?thesis by (force simp: fillna_def)
qed

lemmas eval_defs = scenario_cases_def scenario_world_def anti_dumping_only_cases_def
  scenario_names_def scenario_joined_partners_def scenario_joined_members_def
  get_world_with_data_trading_partners_def cases_count_trading_partners_def
  get_world_with_data_def cases_count_remedy_def size_unstack_def setitem_def getitem_def
  str_contains_def str_accessor_def re_compile_def regex_special_def na_false_def mask_rows_def
  select_rows_def groupby_size_def group_keys_def merge_left_def join_pairs_def matches_def take_left_def
  take_right_def nth_cell_def fillna_def fill_cell_def str_split_def strip_def is_space_def Let_def

lemma scenario_name_column: "getitem scenario_world ''name'' = Inr scenario_names"
  by (simp add: eval_defs)

lemma scenario_partners_result:
  "snd (get_world_with_data_trading_partners no_regex scenario_cases scenario_world ''Anti-dumping'')
     = Inr scenario_joined_partners"
  by (simp add: eval_defs)

lemma scenario_members_result:
  "snd (get_world_with_data scenario_cases scenario_world ''Anti-dumping'')
     = Inr scenario_joined_members"
  by (simp add: eval_defs)

lemma scenario_partners_count:
  "cases_count_trading_partners no_regex scenario_cases ''Anti-dumping'' = Inr [(Str ''India'', 2)]"
  by (simp add: eval_defs)

lemma scenario_members_count:
  "cases_count_remedy
     (fst (get_world_with_data scenario_cases scenario_world ''Anti-dumping'')) ''Anti-dumping''
   = Inr ([Str ''Brazil'', Str ''India''], [Num 2, Num 0])"
  by (simp add: eval_defs)

lemma right_cell_pair:
  assumes "distinct (map fst counts)" "(k, n) \<in> set counts"
  shows "right_cell (map fst counts) (map f counts) k = f (k, n)"
proof -
  from assms(2) obtain j where j: "j < length counts" "counts ! j = (k, n)"
    by (auto simp: in_set_conv_nth)
  have "right_cell (map fst counts) (map f counts) (map fst counts ! j) = map f counts ! j"
    by (rule right_cell_present) (use assms(1) j in simp_all)
  with j show ?thesis by simp
qed

lemma cases_count_keys_distinct:
  "cases_count_trading_partners rx df rt = Inr counts \<Longrightarrow> distinct (map fst counts)"
  by (auto simp: cases_count_trading_partners_def Let_def distinct_keys_groupby_size
      split: sum.splits)

lemma cases_count_remedy_counts:
  assumes "cases_count_remedy df1 rt = Inr (index, counts)"
  shows "length counts = length index \<and> (\<forall>x \<in> set counts. \<not> is_na x)"
proof -
  from assms obtain ms rs columns where
    u: "size_unstack ms rs = (index, columns)" and m: "map_of columns (Str rt) = Some counts"
    by (auto simp: cases_count_remedy_def Let_def split: sum.splits prod.splits option.splits)
  from m have "(Str rt, counts) \<in> set columns" by (rule map_of_SomeD)
  with u show ?thesis by (auto simp: size_unstack_def Let_def)
qed

section \<open>Lemmas about counting and ranking\<close>

lemma set_first_seen: "set (first_seen xs) = set xs"
  by (induction xs) auto

lemma distinct_first_seen: "distinct (first_seen xs)"
  by (induction xs) auto

lemma keys_counter_add:
  "map fst (counter_add x acc) = (if x \<in> fst ` set acc then map fst acc else map fst acc @ [x])"
proof (cases "map_of acc x")
  case None
  have n: "x \<notin> fst ` set acc" using None by (simp add: map_of_eq_None_iff)
  have "counter_add x acc = acc @ [(x, 1)]" unfolding counter_add_def None by simp
  with n show ?thesis by simp
next
  case (Some c)
  have "x \<in> fst ` set acc" using map_of_SomeD [OF Some] by force
  with Some show ?thesis
    by (simp add: counter_add_def update_keys map_idI)
qed

lemma map_of_counter_add:
  "map_of (counter_add x acc) = (map_of acc)(x \<mapsto> (case map_of acc x of None \<Rightarrow> 1 | Some c \<Rightarrow> c + 1))"
proof (cases "map_of acc x")
  case None
  have "counter_add x acc = acc @ [(x, 1)]" unfolding counter_add_def None by simp
  with None show ?thesis
    by (intro ext) (auto simp: map_add_def split: option.splits)
next
  case (Some c)
  have "counter_add x acc = AList.update x (c + 1) acc" unfolding counter_add_def Some by simp
  with Some show ?thesis by (simp add: update_conv')
qed

lemma distinct_counter_add:
  "distinct (map fst acc) \<Longrightarrow> distinct (map fst (counter_add x acc))"
  by (auto simp: keys_counter_add)

lemma keys_counter_loop:
  "map fst (counter_loop acc xs)
     = map fst acc @ filter (\<lambda>y. y \<notin> fst ` set acc) (first_seen xs)"
proof (induction xs arbitrary: acc)
  case Nil
  then show ?case by simp
next
  case (Cons x xs)
  have "set (map fst (counter_add x acc)) = insert x (set (map fst acc))"
    by (auto simp: keys_counter_add)
  then have s: "fst ` set (counter_add x acc) = insert x (fst ` set acc)"
    by simp
  show ?case
    by (simp add: Cons.IH s keys_counter_add)
qed

lemma count_of_counter_add:
  "count_of (counter_add x acc) k = count_of acc k + (if k = x then 1 else 0)"
  by (auto simp: count_of_def map_of_counter_add split: option.splits)

lemma count_of_counter_loop:
  "count_of (counter_loop acc xs) k = count_of acc k + count_list xs k"
  by (induction xs arbitrary: acc) (auto simp: count_of_counter_add)

lemma alist_by_keys:
  "distinct (map fst al) \<Longrightarrow> (k, v) \<in> set al \<Longrightarrow> count_of al k = v"
  by (simp add: count_of_def)

lemma alist_rebuild:
  "distinct (map fst al) \<Longrightarrow> al = map (\<lambda>k. (k, count_of al k)) (map fst al)"
proof -
  assume d: "distinct (map fst al)"
  have "map (\<lambda>p. (fst p, count_of al (fst p))) al = map (\<lambda>p. p) al"
  proof (rule map_cong [OF refl])
    fix p assume "p \<in> set al"
    then have "(fst p, snd p) \<in> set al" by simp
    from alist_by_keys [OF d this] show "(fst p, count_of al (fst p)) = p" by simp
  qed
  then show ?thesis by (simp add: comp_def)
qed

lemma distinct_counter_loop:
  "distinct (map fst acc) \<Longrightarrow> distinct (map fst (counter_loop acc xs))"
  by (induction xs arbitrary: acc) (auto simp: distinct_counter_add)

lemma Counter_eq: "Counter xs = map (\<lambda>k. (k, count_list xs k)) (first_seen xs)"
proof -
  have d: "distinct (map fst (Counter xs))"
    by (simp add: Counter_def distinct_counter_loop)
  have k: "map fst (Counter xs) = first_seen xs"
    by (simp add: Counter_def keys_counter_loop)
  have c: "count_of (Counter xs) k = count_list xs k" for k
    by (simp add: Counter_def count_of_counter_loop) (simp add: count_of_def)
  from alist_rebuild [OF d] show ?thesis by (simp add: k c)
qed

lemma sum_Counter: "sum_list (map snd (Counter xs)) = length xs"
proof -
  have "sum_list (map snd (Counter xs)) = sum_list (map (count_list xs) (first_seen xs))"
    by (simp add: Counter_eq comp_def)
  also have "\<dots> = sum (count_list xs) (set (first_seen xs))"
    by (simp add: sum_list_distinct_conv_sum_set distinct_first_seen)
  also have "\<dots> = length xs"
    by (simp add: set_first_seen sum_count_set)
  finally show ?thesis .
qed

lemma sum_groupby_size: "sum_list (map snd (groupby_size s)) = length (filter (\<lambda>x. \<not> is_na x) s)"
proof -
  let ?ks = "filter (\<lambda>x. \<not> is_na x) s"
  have e: "count_list s k = count_list ?ks k" if "\<not> is_na k" for k
    using that by (induction s) auto
  have "sum_list (map snd (groupby_size s)) = sum_list (map (count_list s) (group_keys s))"
    by (simp add: groupby_size_def comp_def)
  also have "\<dots> = sum (count_list s) (set (group_keys s))"
    by (simp add: sum_list_distinct_conv_sum_set distinct_group_keys)
  also have "\<dots> = sum (count_list ?ks) (set ?ks)"
    by (rule sum.cong) (auto simp: set_group_keys e)
  also have "\<dots> = length ?ks"
    by (simp add: sum_count_set)
  finally show ?thesis .
qed

lemma rank_key: "(\<lambda>(k, c). - int c) = (\<lambda>p. - int (snd p))"
  by (auto simp: fun_eq_iff)

lemma sorted_most_common: "sorted_wrt (\<lambda>a b. snd b \<le> snd a) (most_common n items)"
proof -
  let ?f = "\<lambda>p :: 'a \<times> nat. - int (snd p)"
  have "sorted (map ?f (sort_key ?f items))" by (rule sorted_sort_key)
  then have s: "sorted_wrt (\<lambda>a b. snd b \<le> snd a) (sort_key ?f items)"
    by (simp add: sorted_map)
  show ?thesis
  proof (cases n)
    case None
    with s show ?thesis by (simp add: most_common_def rank_key)
  next
    case (Some m)
    from s have "sorted_wrt (\<lambda>a b. snd b \<le> snd a) (take (nat m) (sort_key ?f items))"
      by (rule sorted_wrt_take)
    with Some show ?thesis by (simp add: most_common_def rank_key)
  qed
qed

lemma length_most_common: "length (most_common (Some n) items) \<le> nat n"
  by (simp add: most_common_def)

lemma set_most_common: "set (most_common n items) \<subseteq> set items"
  by (cases n) (auto simp: most_common_def dest: in_set_takeD)

lemma stable_most_common:
  "prefix (filter (\<lambda>p. snd p = c) (most_common n items)) (filter (\<lambda>p. snd p = c) items)"
proof -
  let ?f = "\<lambda>p :: 'a \<times> nat. - int (snd p)"
  have e: "(\<lambda>p :: 'a \<times> nat. snd p = c) = (\<lambda>p. ?f p = - int c)" by auto
  have st: "filter (\<lambda>p. snd p = c) (sort_key ?f items) = filter (\<lambda>p. snd p = c) items"
    unfolding e by (rule sort_key_stable)
  show ?thesis
  proof (cases n)
    case None
    with st show ?thesis by (simp add: most_common_def rank_key)
  next
    case (Some m)
    have "prefix (filter (\<lambda>p. snd p = c) (take (nat m) (sort_key ?f items)))
       (filter (\<lambda>p. snd p = c) (sort_key ?f items))"
      by (rule filter_mono_prefix) (rule take_is_prefix)
    with Some st show ?thesis by (simp add: most_common_def rank_key)
  qed
qed

lemma set_alist_update: "p \<in> set (AList.update k v al) \<Longrightarrow> p = (k, v) \<or> p \<in> set al"
  by (induction al) (auto split: if_splits)

lemma top_partners_loop_entries:
  "top_partners_loop rx data n acc chs = Inr tp \<Longrightarrow> (ch, r) \<in> set tp \<Longrightarrow>
   (ch, r) \<in> set acc
   \<or> (\<exists>ps. matching_partners rx data ch = Inr ps \<and> r = most_common (Some n) (Counter ps))"
proof (induction chs arbitrary: acc)
  case Nil
  then show ?case by simp
next
  case (Cons c chs)
  from Cons.prems(1) obtain ps where m: "matching_partners rx data c = Inr ps"
    and l: "top_partners_loop rx data n (AList.update c (most_common (Some n) (Counter ps)) acc) chs = Inr tp"
    by (auto simp: Let_def split: sum.splits)
  from Cons.IH [OF l Cons.prems(2)] show ?case
  proof
    assume "(ch, r) \<in> set (AList.update c (most_common (Some n) (Counter ps)) acc)"
    from set_alist_update [OF this] m show ?thesis by auto
  qed simp
qed

lemma get_top_partners_entries:
  assumes "get_top_partners rx data chapters n = Inr tp" "(ch, r) \<in> set tp"
  shows "\<exists>ps. matching_partners rx data ch = Inr ps \<and> r = most_common (Some n) (Counter ps)"
  using top_partners_loop_entries [of rx data n "[]" chapters tp ch r] assms
  by (simp add: get_top_partners_def)

section \<open>Lemmas about the counted rows and the sums of counts\<close>

lemma contains_sub_sublist: "contains_sub pat s = sublist pat s"
  by (induction s) (auto simp: sublist_Cons_right)

lemma sublist_strip: "sublist (strip t) t"
proof -
  let ?u = "dropWhile is_space t"
  have "suffix (dropWhile is_space (rev ?u)) (rev ?u)" by (rule suffix_dropWhile)
  then have "sublist (dropWhile is_space (rev ?u)) (rev ?u)" by (rule suffix_imp_sublist)
  then have "sublist (rev (dropWhile is_space (rev ?u))) ?u" by (simp add: sublist_rev_left)
  moreover have "sublist ?u t" by (rule suffix_imp_sublist) (rule suffix_dropWhile)
  ultimately show ?thesis unfolding strip_def by (rule sublist_order.order.trans)
qed

lemma split_acc_pieces: "p \<in> set (split_acc sep acc s) \<Longrightarrow> sublist p (rev acc @ s)"
proof (induction sep acc s rule: split_acc.induct)
  case (1 sep acc)
  then show ?case by simp
next
  case (2 sep acc c cs)
  show ?case
  proof (cases "sep \<noteq> [] \<and> prefix sep (c # cs)")
    case True
    with "2.prems" have "p = rev acc \<or> p \<in> set (split_acc sep [] (drop (length sep) (c # cs)))"
      by simp
    then show ?thesis
    proof
      assume "p = rev acc"
      then show ?thesis by simp
    next
      assume "p \<in> set (split_acc sep [] (drop (length sep) (c # cs)))"
      from "2.IH"(1) [OF True this] have "sublist p (drop (length sep) (c # cs))" by simp
      moreover have "sublist (drop (length sep) (c # cs)) (rev acc @ c # cs)"
        by (metis append_take_drop_id sublist_appendI append.assoc append_Nil2)
      ultimately show ?thesis by (rule sublist_order.order.trans)
    qed
  next
    case False
    with "2.prems" have "p \<in> set (split_acc sep (c # acc) cs)" by auto
    from "2.IH"(2) [OF False this] show ?thesis by simp
  qed
qed

lemma token_contained:
  assumes "t \<in> set (clean_and_split [Str s])"
  shows "contains_sub t s"
proof -
  from assms obtain p where p: "p \<in> set (str_split '', '' s)" and t: "t = strip p"
    by (auto simp: clean_and_split_def)
  from p have "sublist p s" using split_acc_pieces [of p "'', ''" "[]" s]
    by (simp add: str_split_def)
  with sublist_strip [of p] t have "sublist t s"
    using sublist_order.order.trans by blast
  then show ?thesis by (simp add: contains_sub_sublist)
qed

lemma na_false_contains:
  "na_false (map (contains_elem search) col) = map (\<lambda>c. contains_elem search c = Some True) col"
  by (simp add: na_false_def)

lemma re_compile_plain:
  "\<not> list_ex regex_special pat \<Longrightarrow> re_compile rx pat = Some (contains_sub pat)"
  by (simp add: re_compile_def)

lemma str_contains_Inr:
  assumes "str_contains rx pat s = Inr r"
  shows "\<exists>search. re_compile rx pat = Some search \<and> r = map (contains_elem search) s"
proof -
  from assms obtain v where v: "str_accessor s = Inr v"
    by (auto simp: str_contains_def split: sum.splits)
  with str_accessor_Inr [of s v] have "v = s" by simp
  with assms v show ?thesis
    by (auto simp: str_contains_def split: option.splits)
qed

lemma matching_partners_rows:
  assumes "matching_partners rx data chapter = Inr partners"
    and "getitem data ''Product chapters'' = Inr chapters_col"
    and "getitem data ''Trading partners'' = Inr partners_col"
    and "re_compile rx chapter = Some search"
  shows "partners = map snd (filter (\<lambda>(c, p). contains_elem search c = Some True)
                               (zip chapters_col partners_col))"
proof -
  from assms(1,2) obtain r where r: "str_contains rx chapter chapters_col = Inr r"
    and p: "getitem (mask_rows data (na_false r)) ''Trading partners'' = Inr partners"
    by (auto simp: matching_partners_def split: sum.splits)
  from str_contains_Inr [OF r] assms(4) have "r = map (contains_elem search) chapters_col"
    by auto
  with p assms(3) show ?thesis
    by (simp add: getitem_mask_rows na_false_contains select_rows_map)
qed

lemma contains_elem_True:
  "(contains_elem search c = Some True) = (\<exists>s. c = Str s \<and> search s)"
  by (cases c) auto

lemma length_filter_map_snd:
  "length (filter Q (map snd (filter P zs))) = length (filter (\<lambda>z. P z \<and> Q (snd z)) zs)"
  by (induction zs) auto

lemma cases_count_sum:
  assumes "cases_count_trading_partners rx df rt = Inr counts"
    and "getitem df ''Type'' = Inr types"
    and "getitem df ''Trading partners'' = Inr partners"
    and "re_compile rx rt = Some search"
  shows "sum_list (map snd counts)
     = length (filter (\<lambda>(t, p). (\<exists>s. t = Str s \<and> search s) \<and> \<not> is_na p)
                (zip types partners))"
proof -
  let ?P = "\<lambda>(t, p :: cell). contains_elem search t = Some True"
  from assms(1,2) obtain r where r: "str_contains rx rt types = Inr r"
    and c: "(case getitem (mask_rows df (na_false r)) ''Trading partners'' of
               Inl e \<Rightarrow> Inl e | Inr ps \<Rightarrow> Inr (groupby_size ps)) = Inr counts"
    by (auto simp: cases_count_trading_partners_def Let_def split: sum.splits)
  from str_contains_Inr [OF r] assms(4) have "r = map (contains_elem search) types" by auto
  with c assms(3) have "counts = groupby_size (map snd (filter ?P (zip types partners)))"
    by (simp add: getitem_mask_rows na_false_contains select_rows_map)
  then have "sum_list (map snd counts)
      = length (filter (\<lambda>z. ?P z \<and> \<not> is_na (snd z)) (zip types partners))"
    by (simp add: sum_groupby_size length_filter_map_snd)
  also have "\<dots> = length (filter (\<lambda>(t, p). (\<exists>s. t = Str s \<and> search s) \<and> \<not> is_na p)
                (zip types partners))"
    by (rule arg_cong [where f = length], rule filter_cong) (auto simp: contains_elem_True)
  finally show ?thesis .
qed

lemma length_concat_ge: "\<forall>xs \<in> set xss. xs \<noteq> [] \<Longrightarrow> length xss \<le> length (concat xss)"
proof (induction xss)
  case Nil
  then show ?case by simp
next
  case (Cons a xss)
  then have "1 \<le> length a" by (cases a) auto
  with Cons show ?case by simp
qed

lemma length_clean_and_split: "length col \<le> length (clean_and_split col)"
proof -
  have "length (map (\<lambda>item. str_split '', '' (str_cell item)) col)
      \<le> length (concat (map (\<lambda>item. str_split '', '' (str_cell item)) col))"
    by (rule length_concat_ge) (auto simp: str_split_def split_acc_nonempty)
  then show ?thesis by (simp add: clean_and_split_def)
qed

lemma tokens_count_sum:
  assumes "tokens_count rx data rt col = Inr cnt"
    and "getitem data ''Type'' = Inr types"
    and "getitem data col = Inr column"
    and "re_compile rx rt = Some search"
  shows "sum_list (map snd cnt)
     = length (clean_and_split (map snd (filter (\<lambda>(t, x). \<exists>s. t = Str s \<and> search s)
                                            (zip types column))))
   \<and> length (filter (\<lambda>(t, x). \<exists>s. t = Str s \<and> search s) (zip types column))
       \<le> sum_list (map snd cnt)"
proof -
  let ?P = "\<lambda>(t, p :: cell). contains_elem search t = Some True"
  let ?Q = "\<lambda>(t, x :: cell). \<exists>s. t = Str s \<and> search s"
  have pq: "filter ?P zs = filter ?Q zs" for zs
    by (rule filter_cong) (auto simp: contains_elem_True)
  from assms(1) obtain remedy_data where f: "filter_by_type rx data rt = Inr remedy_data"
    and g: "(case getitem remedy_data col of
               Inl e \<Rightarrow> Inl e | Inr c \<Rightarrow> Inr (Counter (clean_and_split c))) = Inr cnt"
    by (auto simp: tokens_count_def split: sum.splits)
  from f assms(2) obtain r where r: "str_contains rx rt types = Inr r"
    and m: "remedy_data = mask_rows data (na_false r)"
    by (auto simp: filter_by_type_def split: sum.splits if_splits)
  from str_contains_Inr [OF r] assms(4) have "r = map (contains_elem search) types" by auto
  with g m assms(3)
  have "cnt = Counter (clean_and_split (map snd (filter ?P (zip types column))))"
    by (simp add: getitem_mask_rows na_false_contains select_rows_map)
  then have c: "cnt = Counter (clean_and_split (map snd (filter ?Q (zip types column))))"
    by (simp add: pq)
  have s: "sum_list (map snd cnt)
     = length (clean_and_split (map snd (filter ?Q (zip types column))))"
    unfolding c by (rule sum_Counter)
  moreover have "length (filter ?Q (zip types column)) \<le> sum_list (map snd cnt)"
    unfolding s using length_clean_and_split [of "map snd (filter ?Q (zip types column))"] by simp
  ultimately show ?thesis by blast
qed

lemma count_list_pair:
  "count_list rows (a, b) = count_list (map fst (filter (\<lambda>p. snd p = b) rows)) a"
  by (induction rows) auto

lemma sum_count_keys:
  assumes "distinct ks" "set xs \<subseteq> set ks"
  shows "sum_list (map (count_list xs) ks) = length xs"
proof -
  have "sum_list (map (count_list xs) ks) = sum (count_list xs) (set ks)"
    using assms(1) by (simp add: sum_list_distinct_conv_sum_set)
  also have "\<dots> = length xs" using assms(2) by (simp add: sum_count_set)
  finally show ?thesis .
qed

lemma size_unstack_column_sum:
  assumes "size_unstack members remedies = (index, columns)"
    and "map_of columns b = Some counts"
  shows "\<exists>ns. counts = map (\<lambda>n. Num (int n)) ns
     \<and> sum_list ns = length (filter (\<lambda>(m, r). \<not> is_na m \<and> r = b) (zip members remedies))"
proof -
  let ?rows = "filter (\<lambda>(a, b). \<not> is_na a \<and> \<not> is_na b) (zip members remedies)"
  let ?ns = "map (\<lambda>a. count_list ?rows (a, b)) index"
  let ?xs = "map fst (filter (\<lambda>p. snd p = b) ?rows)"
  from assms(1) have i: "index = group_keys (map fst ?rows)"
    by (auto simp: size_unstack_def Let_def)
  from assms(2) have "(b, counts) \<in> set columns" by (rule map_of_SomeD)
  with assms(1) have c: "counts = map (\<lambda>n. Num (int n)) ?ns" and b: "b \<in> set (group_keys (map snd ?rows))"
    by (auto simp: size_unstack_def Let_def comp_def)
  from b have nb: "\<not> is_na b" by (simp add: set_group_keys)
  have d: "distinct index" unfolding i by (rule distinct_group_keys)
  have sub: "set ?xs \<subseteq> set index" unfolding i by (auto simp: set_group_keys)
  have "?ns = map (count_list ?xs) index"
    by (rule map_cong [OF refl]) (rule count_list_pair)
  then have "sum_list ?ns = sum_list (map (count_list ?xs) index)"
    by (rule arg_cong)
  also have "\<dots> = length ?xs" by (rule sum_count_keys [OF d sub])
  also have "\<dots> = length (filter (\<lambda>(m, r). \<not> is_na m \<and> r = b) (zip members remedies))"
    using nb by (auto intro!: arg_cong [where f = length] filter_cong)
  finally have "sum_list ?ns = length (filter (\<lambda>(m, r). \<not> is_na m \<and> r = b) (zip members remedies))" .
  with c show ?thesis by blast
qed

lemma cases_count_remedy_sum:
  assumes "cases_count_remedy df1 rt = Inr (index, counts)"
    and "getitem df1 ''Member/Observer'' = Inr members"
    and "getitem df1 ''Remedy Type'' = Inr remedies"
  shows "\<exists>ns. counts = map (\<lambda>n. Num (int n)) ns
     \<and> sum_list ns = length (filter (\<lambda>(m, r). \<not> is_na m \<and> r = Str rt) (zip members remedies))"
proof -
  from assms obtain columns where
    u: "size_unstack members remedies = (index, columns)" and m: "map_of columns (Str rt) = Some counts"
    by (auto simp: cases_count_remedy_def Let_def split: prod.splits option.splits)
  from size_unstack_column_sum [OF u m] show ?thesis .
qed

section \<open>The claims about the text normalizer\<close>



text \<open>
  C5, as stated, fails on the empty tokens: the empty text gives one empty token, and
  two delimiters in a row give an empty token between them.
\<close>

theorem clean_and_split_empty_token_counterexample:
  "clean_and_split [Str ''''] = [''''] \<and> clean_and_split [Str ''62, , 63''] = [''62'', '''', ''63'']"
  by (simp add: clean_and_split_def str_split_def strip_def is_space_def)

text \<open>
  C5, amended. Every token of the output is trimmed: stripping it again changes
  nothing, and a token that is not empty neither starts nor ends with whitespace.
\<close>

theorem clean_and_split_trimmed:
  "\<forall>t \<in> set (clean_and_split data_column).
     strip t = t \<and> (t \<noteq> [] \<longrightarrow> \<not> is_space (hd t) \<and> \<not> is_space (last t))"
  by (auto simp: clean_and_split_def strip_idem strip_no_leading strip_no_trailing)

theorem clean_and_split_trimmed_witness:
  "''63'' \<in> set (clean_and_split [Str ''62,  63 '']) \<and> strip ''63'' = ''63''
   \<and> \<not> is_space (hd ''63'') \<and> \<not> is_space (last ''63'')"
proof -
  have m: "''63'' \<in> set (clean_and_split [Str ''62,  63 ''])"
    by (simp add: clean_and_split_def str_split_def strip_def is_space_def)
  show ?thesis
    using m clean_and_split_trimmed [of "[Str ''62,  63 '']"] by auto
qed

section \<open>The claims about the geographic join\<close>

text \<open>
  C2. Whatever the case table, when the reference map has its \<open>name\<close> column and the
  function returns a joined table, every column of that table has as many rows as the
  reference map, and its \<open>name\<close> column is the one of the reference map, row by row
  (a missing name reads 0 after the zero-fill): no entity is dropped, none is repeated.
  This holds for both map scripts.
\<close>

theorem geo_join_row_count:
  assumes "getitem world ''name'' = Inr names"
  shows "(snd (get_world_with_data_trading_partners rx df world remedy_type) = Inr out \<longrightarrow>
            (\<forall>(c, s) \<in> set out. length s = length names)
            \<and> getitem out ''name'' = Inr (map (fill_cell (Num 0)) names))
       \<and> (snd (get_world_with_data df world remedy_type) = Inr out' \<longrightarrow>
            (\<forall>(c, s) \<in> set out'. length s = length names)
            \<and> getitem out' ''name'' = Inr (map (fill_cell (Num 0)) names))"
proof (intro conjI impI)
  assume r: "snd (get_world_with_data_trading_partners rx df world remedy_type) = Inr out"
  from recipient_Inr [OF r] assms obtain counts where
    "cases_count_trading_partners rx df remedy_type = Inr counts" by auto
  from recipient_result [OF this assms] r
  have out: "out = fillna (Num 0) (joined world names (map fst counts)
        [(''Trading partners'', map fst counts),
         (''case_count'', map (\<lambda>(k, n). Num (int n)) counts)])" by simp
  show "\<forall>(c, s) \<in> set out. length s = length names"
    unfolding out using joined_lengths by blast
  show "getitem out ''name'' = Inr (map (fill_cell (Num 0)) names)"
    unfolding out by (rule joined_name_column [OF assms])
next
  assume r: "snd (get_world_with_data df world remedy_type) = Inr out'"
  from world_map_Inr [OF r] obtain types index counts where
    t: "getitem df ''Type'' = Inr types" and
    v: "str_accessor types = Inr types" and
    c: "cases_count_remedy (setitem df ''Remedy Type'' (map remedy_of types)) remedy_type
          = Inr (index, counts)" by auto
  from world_map_result [OF t v c assms] r
  have out: "out' = fillna (Num 0) (joined world names index [(remedy_type, counts)])" by simp
  show "\<forall>(c, s) \<in> set out'. length s = length names"
    unfolding out using joined_lengths by blast
  show "getitem out' ''name'' = Inr (map (fill_cell (Num 0)) names)"
    unfolding out by (rule joined_name_column [OF assms])
qed

theorem geo_join_row_count_witness:
  "getitem scenario_world ''name'' = Inr scenario_names
   \<and> snd (get_world_with_data_trading_partners no_regex scenario_cases scenario_world ''Anti-dumping'')
       = Inr scenario_joined_partners
   \<and> (''case_count'', [Num 2, Num 0, Num 0]) \<in> set scenario_joined_partners
   \<and> length [Num 2, Num 0, Num 0 :: cell] = length scenario_names
   \<and> getitem scenario_joined_partners ''name'' = Inr scenario_names
   \<and> snd (get_world_with_data scenario_cases scenario_world ''Anti-dumping'')
       = Inr scenario_joined_members
   \<and> (''Anti-dumping'', [Num 0, Num 0, Num 2]) \<in> set scenario_joined_members
   \<and> length [Num 0, Num 0, Num 2 :: cell] = length scenario_names
   \<and> getitem scenario_joined_members ''name'' = Inr scenario_names"
proof -
  note h = scenario_name_column
  note r1 = scenario_partners_result
  note r2 = scenario_members_result
  have f: "map (fill_cell (Num 0)) scenario_names = scenario_names"
    by (simp add: scenario_names_def fill_cell_def)
  have m1: "(''case_count'', [Num 2, Num 0, Num 0]) \<in> set scenario_joined_partners"
    by (simp add: scenario_joined_partners_def)
  have m2: "(''Anti-dumping'', [Num 0, Num 0, Num 2]) \<in> set scenario_joined_members"
    by (simp add: scenario_joined_members_def)
  from geo_join_row_count [OF h, of no_regex scenario_cases "''Anti-dumping''"
      scenario_joined_partners scenario_joined_members] r1 r2
  have a: "(\<forall>(c, s) \<in> set scenario_joined_partners. length s = length scenario_names)
        \<and> getitem scenario_joined_partners ''name'' = Inr (map (fill_cell (Num 0)) scenario_names)"
   and b: "(\<forall>(c, s) \<in> set scenario_joined_members. length s = length scenario_names)
        \<and> getitem scenario_joined_members ''name'' = Inr (map (fill_cell (Num 0)) scenario_names)"
    by blast+
  from a m1 have l1: "length [Num 2, Num 0, Num 0 :: cell] = length scenario_names" by blast
  from b m2 have l2: "length [Num 0, Num 0, Num 2 :: cell] = length scenario_names" by blast
  from a b f have n1: "getitem scenario_joined_partners ''name'' = Inr scenario_names"
    and n2: "getitem scenario_joined_members ''name'' = Inr scenario_names" by simp_all
  from h r1 m1 l1 n1 r2 m2 l2 n2 show ?thesis by blast
qed

text \<open>
  C3. In the joined table, the count of an entity whose name is not a key of the
  aggregation is exactly 0, and the count of an entity whose name is equal to a key is
  the count of that key. Names and keys are compared as they are (equality of text,
  character by character). The count column is read by its name, so the reference map
  is taken to have no column of that name.
\<close>

theorem geo_join_unmatched_zero:
  assumes "getitem world ''name'' = Inr names"
  shows "(snd (get_world_with_data_trading_partners rx df world remedy_type) = Inr out
          \<and> cases_count_trading_partners rx df remedy_type = Inr counts
          \<and> map_of world ''case_count'' = None \<longrightarrow>
            (\<exists>cs. getitem out ''case_count'' = Inr cs \<and> length cs = length names
               \<and> (\<forall>i < length names.
                     (names ! i \<notin> fst ` set counts \<longrightarrow> cs ! i = Num 0)
                     \<and> (\<forall>n. (names ! i, n) \<in> set counts \<longrightarrow> cs ! i = Num (int n)))))
       \<and> (snd (get_world_with_data df world remedy_type) = Inr out'
          \<and> cases_count_remedy (fst (get_world_with_data df world remedy_type)) remedy_type
              = Inr (index, member_counts)
          \<and> map_of world remedy_type = None \<longrightarrow>
            (\<exists>cs. getitem out' remedy_type = Inr cs \<and> length cs = length names
               \<and> (\<forall>i < length names.
                     (names ! i \<notin> set index \<longrightarrow> cs ! i = Num 0)
                     \<and> (\<forall>j < length index. names ! i = index ! j \<longrightarrow> cs ! i = member_counts ! j))))"
proof (intro conjI impI)
  assume a: "snd (get_world_with_data_trading_partners rx df world remedy_type) = Inr out
          \<and> cases_count_trading_partners rx df remedy_type = Inr counts
          \<and> map_of world ''case_count'' = None"
  let ?keys = "map fst counts"
  let ?f = "\<lambda>(k, n). Num (int n)"
  let ?cnts = "map ?f counts"
  let ?cs = "map (fill_cell (Num 0)) (map (right_cell ?keys ?cnts) names)"
  from a recipient_result [OF _ assms, of rx df remedy_type counts]
  have out: "out = fillna (Num 0) (joined world names ?keys
        [(''Trading partners'', ?keys), (''case_count'', ?cnts)])" by simp
  from a have cc: "cases_count_trading_partners rx df remedy_type = Inr counts" by simp
  have d: "distinct ?keys" by (rule cases_count_keys_distinct [OF cc])
  have g: "getitem out ''case_count'' = Inr ?cs"
    using a unfolding out by (simp add: getitem_def map_of_fillna map_of_joined_right)
  have z: "cs0 ! i = Num 0" if "i < length names" "names ! i \<notin> fst ` set counts" "cs0 = ?cs" for i cs0
    using that by (simp add: right_cell_absent fill_cell_def)
  have p: "cs0 ! i = Num (int n)" if "i < length names" "(names ! i, n) \<in> set counts" "cs0 = ?cs" for i n cs0
    using that right_cell_pair [OF d that(2), of ?f] by (simp add: fill_cell_def)
  show "\<exists>cs. getitem out ''case_count'' = Inr cs \<and> length cs = length names
               \<and> (\<forall>i < length names.
                     (names ! i \<notin> fst ` set counts \<longrightarrow> cs ! i = Num 0)
                     \<and> (\<forall>n. (names ! i, n) \<in> set counts \<longrightarrow> cs ! i = Num (int n)))"
  proof (intro exI conjI allI impI)
    show "getitem out ''case_count'' = Inr ?cs" by (rule g)
    show "length ?cs = length names" by simp
  next
    fix i assume "i < length names" "names ! i \<notin> fst ` set counts"
    then show "?cs ! i = Num 0" by (rule z) simp
  next
    fix i n assume "i < length names" "(names ! i, n) \<in> set counts"
    then show "?cs ! i = Num (int n)" by (rule p) simp
  qed
next
  assume a: "snd (get_world_with_data df world remedy_type) = Inr out'
          \<and> cases_count_remedy (fst (get_world_with_data df world remedy_type)) remedy_type
              = Inr (index, member_counts)
          \<and> map_of world remedy_type = None"
  let ?cs = "map (fill_cell (Num 0)) (map (right_cell index member_counts) names)"
  from a world_map_Inr [of df world remedy_type out'] obtain types where
    t: "getitem df ''Type'' = Inr types" and v: "str_accessor types = Inr types" by auto
  from a have c: "cases_count_remedy (setitem df ''Remedy Type'' (map remedy_of types)) remedy_type
      = Inr (index, member_counts)" by (simp add: fst_world_map [OF t v])
  from a world_map_result [OF t v c assms]
  have out: "out' = fillna (Num 0) (joined world names index [(remedy_type, member_counts)])" by simp
  have d: "distinct index" by (rule cases_count_remedy_distinct [OF c])
  from cases_count_remedy_counts [OF c]
  have l: "length member_counts = length index" and nn: "\<forall>x \<in> set member_counts. \<not> is_na x" by auto
  have g: "getitem out' remedy_type = Inr ?cs"
    using a unfolding out by (simp add: getitem_def map_of_fillna map_of_joined_right)
  show "\<exists>cs. getitem out' remedy_type = Inr cs \<and> length cs = length names
               \<and> (\<forall>i < length names.
                     (names ! i \<notin> set index \<longrightarrow> cs ! i = Num 0)
                     \<and> (\<forall>j < length index. names ! i = index ! j \<longrightarrow> cs ! i = member_counts ! j))"
  proof (intro exI conjI allI impI)
    show "getitem out' remedy_type = Inr ?cs" by (rule g)
    show "length ?cs = length names" by simp
  next
    fix i assume "i < length names" "names ! i \<notin> set index"
    then show "?cs ! i = Num 0" by (simp add: right_cell_absent fill_cell_def)
  next
    fix i j assume i: "i < length names" and j: "j < length index" and e: "names ! i = index ! j"
    have "right_cell index member_counts (index ! j) = member_counts ! j"
      by (rule right_cell_present [OF d j l])
    moreover have "\<not> is_na (member_counts ! j)" using nn j l by simp
    ultimately show "?cs ! i = member_counts ! j" using i e by (simp add: fill_cell_def)
  qed
qed

theorem geo_join_unmatched_zero_witness:
  "getitem scenario_world ''name'' = Inr scenario_names
   \<and> snd (get_world_with_data_trading_partners no_regex scenario_cases scenario_world ''Anti-dumping'')
       = Inr scenario_joined_partners
   \<and> cases_count_trading_partners no_regex scenario_cases ''Anti-dumping'' = Inr [(Str ''India'', 2)]
   \<and> map_of scenario_world ''case_count'' = None
   \<and> (1 :: nat) < length scenario_names
   \<and> scenario_names ! 1 \<notin> fst ` set [(Str ''India'', 2 :: nat)]
   \<and> (scenario_names ! 0, 2 :: nat) \<in> set [(Str ''India'', 2)]
   \<and> getitem scenario_joined_partners ''case_count'' = Inr [Num 2, Num 0, Num 0]
   \<and> snd (get_world_with_data scenario_cases scenario_world ''Anti-dumping'')
       = Inr scenario_joined_members
   \<and> cases_count_remedy
       (fst (get_world_with_data scenario_cases scenario_world ''Anti-dumping'')) ''Anti-dumping''
       = Inr ([Str ''Brazil'', Str ''India''], [Num 2, Num 0])
   \<and> map_of scenario_world ''Anti-dumping'' = None
   \<and> scenario_names ! 1 \<notin> set [Str ''Brazil'', Str ''India'']
   \<and> scenario_names ! 2 = [Str ''Brazil'', Str ''India''] ! 0
   \<and> getitem scenario_joined_members ''Anti-dumping'' = Inr [Num 0, Num 0, Num 2]"
proof -
  note h = scenario_name_column
  note r1 = scenario_partners_result
  note r2 = scenario_members_result
  note c1 = scenario_partners_count
  note c2 = scenario_members_count
  have w1: "map_of scenario_world ''case_count'' = None"
    and w2: "map_of scenario_world ''Anti-dumping'' = None"
    by (simp_all add: scenario_world_def)
  have g1: "getitem scenario_joined_partners ''case_count'' = Inr [Num 2, Num 0, Num 0]"
    by (simp add: scenario_joined_partners_def getitem_def)
  have g2: "getitem scenario_joined_members ''Anti-dumping'' = Inr [Num 0, Num 0, Num 2]"
    by (simp add: scenario_joined_members_def getitem_def)
  have i: "(1 :: nat) < length scenario_names"
    "scenario_names ! 1 \<notin> fst ` set [(Str ''India'', 2 :: nat)]"
    "(scenario_names ! 0, 2 :: nat) \<in> set [(Str ''India'', 2)]"
    "scenario_names ! 1 \<notin> set [Str ''Brazil'', Str ''India'']"
    "scenario_names ! 2 = [Str ''Brazil'', Str ''India''] ! 0"
    by (simp_all add: scenario_names_def)
  from geo_join_unmatched_zero [OF h, of no_regex scenario_cases "''Anti-dumping''"
      scenario_joined_partners "[(Str ''India'', 2)]" scenario_joined_members
      "[Str ''Brazil'', Str ''India'']" "[Num 2, Num 0]"] r1 c1 w1 r2 c2 w2
  have "\<exists>cs. getitem scenario_joined_partners ''case_count'' = Inr cs"
    and "\<exists>cs. getitem scenario_joined_members ''Anti-dumping'' = Inr cs"
    by blast+
  with h r1 c1 w1 i g1 r2 c2 w2 g2 show ?thesis by blast
qed

text \<open>
  C10. The zero-fill covers every column of the joined table: no cell of the result
  is missing, and every column of the reference map is in the result with its missing
  values replaced by 0 and its other values as they were.
\<close>

theorem fillna_every_column:
  "(snd (get_world_with_data_trading_partners rx df world remedy_type) = Inr out \<longrightarrow>
      (\<forall>(c, s) \<in> set out. \<forall>x \<in> set s. \<not> is_na x)
      \<and> (\<forall>names. getitem world ''name'' = Inr names \<longrightarrow>
           (\<forall>(c, s) \<in> set world. length s = length names \<longrightarrow>
               (c, map (fill_cell (Num 0)) s) \<in> set out)))
   \<and> (snd (get_world_with_data df world remedy_type) = Inr out' \<longrightarrow>
      (\<forall>(c, s) \<in> set out'. \<forall>x \<in> set s. \<not> is_na x)
      \<and> (\<forall>names. getitem world ''name'' = Inr names \<longrightarrow>
           (\<forall>(c, s) \<in> set world. length s = length names \<longrightarrow>
               (c, map (fill_cell (Num 0)) s) \<in> set out')))"
proof (intro conjI impI allI)
  assume r: "snd (get_world_with_data_trading_partners rx df world remedy_type) = Inr out"
  from recipient_Inr [OF r] obtain counts names0 where
    c: "cases_count_trading_partners rx df remedy_type = Inr counts" and
    n0: "getitem world ''name'' = Inr names0" by auto
  from recipient_result [OF c n0] r
  have out: "out = fillna (Num 0) (joined world names0 (map fst counts)
        [(''Trading partners'', map fst counts),
         (''case_count'', map (\<lambda>(k, n). Num (int n)) counts)])" by simp
  show "\<forall>(c, s) \<in> set out. \<forall>x \<in> set s. \<not> is_na x"
    unfolding out using joined_no_na [of "Num 0"] by fastforce
  fix names assume "getitem world ''name'' = Inr names"
  with n0 have "names0 = names" by simp
  then show "\<forall>(c, s) \<in> set world. length s = length names \<longrightarrow>
               (c, map (fill_cell (Num 0)) s) \<in> set out"
    unfolding out using joined_world_column by fastforce
next
  assume r: "snd (get_world_with_data df world remedy_type) = Inr out'"
  from world_map_Inr [OF r] obtain types index counts names0 where
    t: "getitem df ''Type'' = Inr types" and
    v: "str_accessor types = Inr types" and
    c: "cases_count_remedy (setitem df ''Remedy Type'' (map remedy_of types)) remedy_type
          = Inr (index, counts)" and
    n0: "getitem world ''name'' = Inr names0" by auto
  from world_map_result [OF t v c n0] r
  have out: "out' = fillna (Num 0) (joined world names0 index [(remedy_type, counts)])" by simp
  show "\<forall>(c, s) \<in> set out'. \<forall>x \<in> set s. \<not> is_na x"
    unfolding out using joined_no_na [of "Num 0"] by fastforce
  fix names assume "getitem world ''name'' = Inr names"
  with n0 have "names0 = names" by simp
  then show "\<forall>(c, s) \<in> set world. length s = length names \<longrightarrow>
               (c, map (fill_cell (Num 0)) s) \<in> set out'"
    unfolding out using joined_world_column by fastforce
qed

theorem fillna_every_column_witness:
  "snd (get_world_with_data_trading_partners no_regex scenario_cases scenario_world ''Anti-dumping'')
       = Inr scenario_joined_partners
   \<and> snd (get_world_with_data scenario_cases scenario_world ''Anti-dumping'')
       = Inr scenario_joined_members
   \<and> getitem scenario_world ''name'' = Inr scenario_names
   \<and> (''pop_est'', [Num 1380, NaN, Num 212]) \<in> set scenario_world
   \<and> length [Num 1380, NaN, Num 212] = length scenario_names
   \<and> (''pop_est'', [Num 1380, Num 0, Num 212]) \<in> set scenario_joined_partners
   \<and> (''pop_est'', [Num 1380, Num 0, Num 212]) \<in> set scenario_joined_members
   \<and> Num 0 \<in> set [Num 1380, Num 0, Num 212] \<and> \<not> is_na (Num 0)"
proof -
  note h = scenario_name_column
  note r1 = scenario_partners_result
  note r2 = scenario_members_result
  have p: "(''pop_est'', [Num 1380, NaN, Num 212]) \<in> set scenario_world"
    by (simp add: scenario_world_def)
  have l: "length [Num 1380, NaN, Num 212] = length scenario_names"
    by (simp add: scenario_names_def)
  have f: "map (fill_cell (Num 0)) [Num 1380, NaN, Num 212] = [Num 1380, Num 0, Num 212]"
    by (simp add: fill_cell_def)
  from fillna_every_column [of no_regex scenario_cases scenario_world "''Anti-dumping''"
      scenario_joined_partners scenario_joined_members] r1 r2 h
  have a: "\<forall>(c, s) \<in> set scenario_world. length s = length scenario_names \<longrightarrow>
             (c, map (fill_cell (Num 0)) s) \<in> set scenario_joined_partners"
   and b: "\<forall>(c, s) \<in> set scenario_world. length s = length scenario_names \<longrightarrow>
             (c, map (fill_cell (Num 0)) s) \<in> set scenario_joined_members"
    by blast+
  from a p l f have q1: "(''pop_est'', [Num 1380, Num 0, Num 212]) \<in> set scenario_joined_partners"
    by fastforce
  from b p l f have q2: "(''pop_est'', [Num 1380, Num 0, Num 212]) \<in> set scenario_joined_members"
    by fastforce
  from r1 r2 h p l q1 q2 show ?thesis by simp
qed

section \<open>The claims about failures and about the input table\<close>

text \<open>
  C8. With a table that holds no countervailing case, \<open>get_world_with_data\<close> fails
  with KeyError at \<open>cases_count[[remedy_type]]\<close>, while on the same table
  \<open>get_world_with_data_trading_partners\<close> returns the joined table with every count 0.
\<close>

theorem empty_subset_KeyError:
  "snd (get_world_with_data anti_dumping_only_cases scenario_world ''Countervailing'')
     = Inl KeyError
   \<and> snd (get_world_with_data_trading_partners no_regex anti_dumping_only_cases scenario_world
            ''Countervailing'')
     = Inr [(''name'', [Str ''India'', Str ''China'', Str ''Brazil'']),
            (''pop_est'', [Num 1380, Num 0, Num 212]),
            (''Trading partners'', [Num 0, Num 0, Num 0]),
            (''case_count'', [Num 0, Num 0, Num 0])]"
  by (simp add: eval_defs)

text \<open>
  C9, as stated, fails for \<open>get_world_with_data\<close>: after the call the caller's table
  has the new column \<open>Remedy Type\<close>.
\<close>

theorem input_table_changed_counterexample:
  "fst (get_world_with_data scenario_cases scenario_world ''Anti-dumping'')
     = scenario_cases
       @ [(''Remedy Type'', [Str ''Anti-dumping'', Str ''Anti-dumping'', Str ''Countervailing''])]
   \<and> fst (get_world_with_data scenario_cases scenario_world ''Anti-dumping'') \<noteq> scenario_cases"
  by (simp add: eval_defs)

text \<open>
  C9, amended. \<open>get_world_with_data_trading_partners\<close> leaves the table of case
  records as it was. \<open>get_world_with_data\<close> changes it in one column only: every
  column other than \<open>Remedy Type\<close> is as it was. When the table has a \<open>Type\<close>
  column with the \<open>.str\<close> accessor, the column \<open>Remedy Type\<close> has after the call
  one value for each row: for a type that is a text, the text after its last \<open>/\<close>
  (the whole text when it has none), trimmed of surrounding whitespace; \<open>None\<close>
  for the type \<open>None\<close>; \<open>nan\<close> for a missing or numeric type. When the table
  has no \<open>Type\<close> column, or one without the accessor, the table is unchanged.
\<close>

theorem input_table_frame:
  "fst (get_world_with_data_trading_partners rx df world remedy_type) = df
   \<and> (\<forall>c. c \<noteq> ''Remedy Type'' \<longrightarrow>
          map_of (fst (get_world_with_data df world remedy_type)) c = map_of df c)
   \<and> (\<forall>types. getitem df ''Type'' = Inr types \<and> str_accessor types = Inr types \<longrightarrow>
        (\<exists>remedies.
            getitem (fst (get_world_with_data df world remedy_type)) ''Remedy Type'' = Inr remedies
          \<and> length remedies = length types
          \<and> (\<forall>i < length types.
                (\<forall>a b. types ! i = Str (a @ ''/'' @ b) \<and> CHR ''/'' \<notin> set b \<longrightarrow>
                       remedies ! i = Str (strip b))
              \<and> (\<forall>s. types ! i = Str s \<and> CHR ''/'' \<notin> set s \<longrightarrow> remedies ! i = Str (strip s))
              \<and> (\<forall>t. remedies ! i = Str t \<longrightarrow> strip t = t \<and> is_text (types ! i))
              \<and> (types ! i = PyNone \<longrightarrow> remedies ! i = PyNone)
              \<and> (types ! i = NaN \<or> (\<exists>n. types ! i = Num n) \<longrightarrow> remedies ! i = NaN))))
   \<and> (getitem df ''Type'' = Inl KeyError
        \<or> (\<exists>types. getitem df ''Type'' = Inr types \<and> str_accessor types = Inl AttributeError)
       \<longrightarrow> fst (get_world_with_data df world remedy_type) = df)"
proof (intro conjI allI impI)
  show "fst (get_world_with_data_trading_partners rx df world remedy_type) = df"
    by (simp add: get_world_with_data_trading_partners_def)
next
  fix c :: string assume "c \<noteq> ''Remedy Type''"
  then show "map_of (fst (get_world_with_data df world remedy_type)) c = map_of df c"
    by (simp add: get_world_with_data_def Let_def map_of_setitem split: sum.splits)
next
  fix types assume a: "getitem df ''Type'' = Inr types \<and> str_accessor types = Inr types"
  let ?r = "map remedy_of types"
  have g: "getitem (fst (get_world_with_data df world remedy_type)) ''Remedy Type'' = Inr ?r"
    using a by (simp add: fst_world_map) (simp add: getitem_def map_of_setitem)
  have p: "(\<forall>a b. types ! i = Str (a @ ''/'' @ b) \<and> CHR ''/'' \<notin> set b \<longrightarrow>
                       ?r ! i = Str (strip b))
              \<and> (\<forall>s. types ! i = Str s \<and> CHR ''/'' \<notin> set s \<longrightarrow> ?r ! i = Str (strip s))
              \<and> (\<forall>t. ?r ! i = Str t \<longrightarrow> strip t = t \<and> is_text (types ! i))
              \<and> (types ! i = PyNone \<longrightarrow> ?r ! i = PyNone)
              \<and> (types ! i = NaN \<or> (\<exists>n. types ! i = Num n) \<longrightarrow> ?r ! i = NaN)"
    if "i < length types" for i
  proof -
    have n: "?r ! i = remedy_of (types ! i)" using that by simp
    show ?thesis unfolding n by (rule remedy_of_props)
  qed
  show "\<exists>remedies.
            getitem (fst (get_world_with_data df world remedy_type)) ''Remedy Type'' = Inr remedies
          \<and> length remedies = length types
          \<and> (\<forall>i < length types.
                (\<forall>a b. types ! i = Str (a @ ''/'' @ b) \<and> CHR ''/'' \<notin> set b \<longrightarrow>
                       remedies ! i = Str (strip b))
              \<and> (\<forall>s. types ! i = Str s \<and> CHR ''/'' \<notin> set s \<longrightarrow> remedies ! i = Str (strip s))
              \<and> (\<forall>t. remedies ! i = Str t \<longrightarrow> strip t = t \<and> is_text (types ! i))
              \<and> (types ! i = PyNone \<longrightarrow> remedies ! i = PyNone)
              \<and> (types ! i = NaN \<or> (\<exists>n. types ! i = Num n) \<longrightarrow> remedies ! i = NaN))"
  proof (rule exI [of _ ?r], intro conjI)
    show "getitem (fst (get_world_with_data df world remedy_type)) ''Remedy Type'' = Inr ?r"
      by (rule g)
    show "length ?r = length types" by simp
    show "\<forall>i < length types.
                (\<forall>a b. types ! i = Str (a @ ''/'' @ b) \<and> CHR ''/'' \<notin> set b \<longrightarrow>
                       ?r ! i = Str (strip b))
              \<and> (\<forall>s. types ! i = Str s \<and> CHR ''/'' \<notin> set s \<longrightarrow> ?r ! i = Str (strip s))
              \<and> (\<forall>t. ?r ! i = Str t \<longrightarrow> strip t = t \<and> is_text (types ! i))
              \<and> (types ! i = PyNone \<longrightarrow> ?r ! i = PyNone)
              \<and> (types ! i = NaN \<or> (\<exists>n. types ! i = Num n) \<longrightarrow> ?r ! i = NaN)"
      by (intro allI impI) (rule p)
  qed
next
  assume "getitem df ''Type'' = Inl KeyError
        \<or> (\<exists>types. getitem df ''Type'' = Inr types \<and> str_accessor types = Inl AttributeError)"
  then show "fst (get_world_with_data df world remedy_type) = df"
    by (auto simp: get_world_with_data_def)
qed

theorem input_table_frame_witness:
  "''Member/Observer'' \<noteq> ''Remedy Type''
   \<and> map_of (fst (get_world_with_data member_type_cases scenario_world ''Anti-dumping''))
         ''Member/Observer''
       = map_of member_type_cases ''Member/Observer''
   \<and> getitem member_type_cases ''Type''
       = Inr [Str ''India / Anti-dumping '', Str ''Countervailing'', NaN, PyNone]
   \<and> str_accessor [Str ''India / Anti-dumping '', Str ''Countervailing'', NaN, PyNone]
       = Inr [Str ''India / Anti-dumping '', Str ''Countervailing'', NaN, PyNone]
   \<and> getitem (fst (get_world_with_data member_type_cases scenario_world ''Anti-dumping''))
         ''Remedy Type''
       = Inr [Str ''Anti-dumping'', Str ''Countervailing'', NaN, PyNone]
   \<and> ([Str ''India / Anti-dumping '', Str ''Countervailing'', NaN, PyNone] ! 0
         = Str (''India '' @ ''/'' @ '' Anti-dumping '')
       \<and> CHR ''/'' \<notin> set '' Anti-dumping '')
   \<and> [Str ''Anti-dumping'', Str ''Countervailing'', NaN, PyNone] ! 0 = Str (strip '' Anti-dumping '')
   \<and> strip '' Anti-dumping '' = ''Anti-dumping''
   \<and> ([Str ''India / Anti-dumping '', Str ''Countervailing'', NaN, PyNone] ! 1
         = Str ''Countervailing''
       \<and> CHR ''/'' \<notin> set ''Countervailing'')
   \<and> [Str ''Anti-dumping'', Str ''Countervailing'', NaN, PyNone] ! 1 = Str (strip ''Countervailing'')
   \<and> getitem [(''Product chapters'', [Str ''72''])] ''Type'' = Inl KeyError
   \<and> fst (get_world_with_data [(''Product chapters'', [Str ''72''])] scenario_world ''Anti-dumping'')
       = [(''Product chapters'', [Str ''72''])]
   \<and> getitem no_text_cases ''Type'' = Inr [NaN, NaN]
   \<and> str_accessor [NaN, NaN] = Inl AttributeError
   \<and> fst (get_world_with_data no_text_cases scenario_world ''Anti-dumping'') = no_text_cases"
proof -
  let ?types = "[Str ''India / Anti-dumping '', Str ''Countervailing'', NaN, PyNone]"
  let ?out = "[Str ''Anti-dumping'', Str ''Countervailing'', NaN, PyNone]"
  let ?df1 = "fst (get_world_with_data member_type_cases scenario_world ''Anti-dumping'')"
  note th = input_table_frame [of no_regex member_type_cases scenario_world "''Anti-dumping''"]
  have n: "''Member/Observer'' \<noteq> ''Remedy Type''" by simp
  have t: "getitem member_type_cases ''Type'' = Inr ?types"
    by (simp add: member_type_cases_def getitem_def)
  have v: "str_accessor ?types = Inr ?types"
    by (simp add: str_accessor_def)
  have q0: "?types ! 0 = Str (''India '' @ ''/'' @ '' Anti-dumping '')
       \<and> CHR ''/'' \<notin> set '' Anti-dumping ''" by simp
  have q1: "?types ! 1 = Str ''Countervailing'' \<and> CHR ''/'' \<notin> set ''Countervailing''"
    by simp
  have st: "strip '' Anti-dumping '' = ''Anti-dumping''"
    by (simp add: strip_def is_space_def)
  have m: "map_of ?df1 ''Member/Observer'' = map_of member_type_cases ''Member/Observer''"
    by (rule th [THEN conjunct2, THEN conjunct1, THEN spec, THEN mp, OF n])
  have g': "getitem ?df1 ''Remedy Type'' = Inr ?out"
    by (simp add: member_type_cases_def get_world_with_data_def getitem_def setitem_def
        str_accessor_def str_split_def strip_def is_space_def Let_def)
  from th [THEN conjunct2, THEN conjunct2, THEN conjunct1, THEN spec, THEN mp, OF conjI [OF t v]]
  obtain remedies where R: "getitem ?df1 ''Remedy Type'' = Inr remedies
          \<and> length remedies = length ?types
          \<and> (\<forall>i < length ?types.
                (\<forall>a b. ?types ! i = Str (a @ ''/'' @ b) \<and> CHR ''/'' \<notin> set b \<longrightarrow>
                       remedies ! i = Str (strip b))
              \<and> (\<forall>s. ?types ! i = Str s \<and> CHR ''/'' \<notin> set s \<longrightarrow> remedies ! i = Str (strip s))
              \<and> (\<forall>t. remedies ! i = Str t \<longrightarrow> strip t = t \<and> is_text (?types ! i))
              \<and> (?types ! i = PyNone \<longrightarrow> remedies ! i = PyNone)
              \<and> (?types ! i = NaN \<or> (\<exists>n. ?types ! i = Num n) \<longrightarrow> remedies ! i = NaN))" ..
  from R [THEN conjunct1] g' have e: "remedies = ?out" by simp
  note p = R [THEN conjunct2, THEN conjunct2]
  have i0: "(0 :: nat) < length ?types" and i1: "(1 :: nat) < length ?types" by simp_all
  have r0: "?out ! 0 = Str (strip '' Anti-dumping '')"
    using p [THEN spec, THEN mp, OF i0, THEN conjunct1, THEN spec, THEN spec, THEN mp, OF q0]
    unfolding e .
  have r1: "?out ! 1 = Str (strip ''Countervailing'')"
    using p [THEN spec, THEN mp, OF i1, THEN conjunct2, THEN conjunct1, THEN spec, THEN mp, OF q1]
    unfolding e .
  have k: "getitem [(''Product chapters'', [Str ''72''])] ''Type'' = Inl KeyError"
    by (simp add: getitem_def)
  have u1: "fst (get_world_with_data [(''Product chapters'', [Str ''72''])] scenario_world
      ''Anti-dumping'') = [(''Product chapters'', [Str ''72''])]"
    by (rule input_table_frame [of no_regex "[(''Product chapters'', [Str ''72''])]"
          scenario_world "''Anti-dumping''",
          THEN conjunct2, THEN conjunct2, THEN conjunct2, THEN mp])
       (rule disjI1, rule k)
  have n1: "getitem no_text_cases ''Type'' = Inr [NaN, NaN]"
    by (simp add: no_text_cases_def getitem_def)
  have n2: "str_accessor [NaN, NaN] = Inl AttributeError"
    by (simp add: str_accessor_def)
  have u2: "fst (get_world_with_data no_text_cases scenario_world ''Anti-dumping'') = no_text_cases"
    by (rule input_table_frame [of no_regex no_text_cases scenario_world "''Anti-dumping''",
          THEN conjunct2, THEN conjunct2, THEN conjunct2, THEN mp])
       (rule disjI2, rule exI, rule conjI, rule n1, rule n2)
  show ?thesis
    by (intro conjI)
       (rule n m t v g' q0 [THEN conjunct1] q0 [THEN conjunct2] r0 st
             q1 [THEN conjunct1] q1 [THEN conjunct2] r1 k u1 n1 n2 u2)+
qed

section \<open>The claims about the top partners\<close>

text \<open>
  C6. For every chapter of the result of \<open>get_top_partners\<close>, the ranking has at most
  \<open>top_n\<close> entries (at most 3 when \<open>top_n\<close> is left to its default), each entry is a
  partner of the rows counted for the chapter with the number of its occurrences, the
  counts never increase along the ranking, and for each count the entries with that
  count are an initial piece of the partners with that count in the order in which
  they are first met: ties stand in first-met order.
\<close>

theorem top_partners_ranking:
  assumes "get_top_partners rx data chapters top_n = Inr top_partners"
    and "(chapter, ranking) \<in> set top_partners"
  shows "\<exists>partners. matching_partners rx data chapter = Inr partners
      \<and> length ranking \<le> nat top_n
      \<and> (0 \<le> top_n \<longrightarrow> int (length ranking) \<le> top_n)
      \<and> (get_top_partners_default rx data chapters = Inr top_partners \<longrightarrow> length ranking \<le> 3)
      \<and> (\<forall>(p, c) \<in> set ranking. p \<in> set partners \<and> c = count_list partners p)
      \<and> sorted_wrt (\<lambda>a b. snd b \<le> snd a) ranking
      \<and> (\<forall>c. prefix (filter (\<lambda>p. snd p = c) ranking)
                 (filter (\<lambda>p. snd p = c)
                    (map (\<lambda>k. (k, count_list partners k)) (first_seen partners))))"
proof -
  from get_top_partners_entries [OF assms] obtain ps where
    m: "matching_partners rx data chapter = Inr ps" and
    r: "ranking = most_common (Some top_n) (Counter ps)" by blast
  have l: "length ranking \<le> nat top_n" unfolding r by (rule length_most_common)
  then have l': "0 \<le> top_n \<longrightarrow> int (length ranking) \<le> top_n" by linarith
  have d: "get_top_partners_default rx data chapters = Inr top_partners \<longrightarrow> length ranking \<le> 3"
  proof
    assume "get_top_partners_default rx data chapters = Inr top_partners"
    then have "get_top_partners rx data chapters 3 = Inr top_partners"
      by (simp add: get_top_partners_default_def)
    from get_top_partners_entries [OF this assms(2)] obtain ps' where
      "ranking = most_common (Some 3) (Counter ps')" by blast
    then show "length ranking \<le> 3" using length_most_common [of 3 "Counter ps'"] by simp
  qed
  have e: "\<forall>(p, c) \<in> set ranking. p \<in> set ps \<and> c = count_list ps p"
    using set_most_common [of "Some top_n" "Counter ps"] unfolding r
    by (auto simp: Counter_eq set_first_seen)
  have s: "sorted_wrt (\<lambda>a b. snd b \<le> snd a) ranking" unfolding r by (rule sorted_most_common)
  have t: "\<forall>c. prefix (filter (\<lambda>p. snd p = c) ranking)
                 (filter (\<lambda>p. snd p = c) (map (\<lambda>k. (k, count_list ps k)) (first_seen ps)))"
    unfolding r using stable_most_common [of _ "Some top_n" "Counter ps"]
    by (simp add: Counter_eq)
  from m l l' d e s t show ?thesis by blast
qed

theorem top_partners_ranking_witness:
  "get_top_partners no_regex ranking_cases [''72''] 3
     = Inr [(''72'', [(Str ''India'', 2), (Str ''China'', 1), (Str ''Brazil'', 1)])]
   \<and> (''72'', [(Str ''India'', 2), (Str ''China'', 1), (Str ''Brazil'', 1)])
       \<in> set [(''72'', [(Str ''India'', 2 :: nat), (Str ''China'', 1), (Str ''Brazil'', 1)])]
   \<and> matching_partners no_regex ranking_cases ''72''
       = Inr [Str ''China'', Str ''India'', Str ''Brazil'', Str ''India'', Str ''Peru'']
   \<and> (0 :: int) \<le> 3
   \<and> int (length [(Str ''India'', 2 :: nat), (Str ''China'', 1), (Str ''Brazil'', 1)]) \<le> 3
   \<and> get_top_partners_default no_regex ranking_cases [''72'']
       = Inr [(''72'', [(Str ''India'', 2), (Str ''China'', 1), (Str ''Brazil'', 1)])]
   \<and> (Str ''China'', 1) \<in> set [(Str ''India'', 2 :: nat), (Str ''China'', 1), (Str ''Brazil'', 1)]
   \<and> sorted_wrt (\<lambda>a b. snd b \<le> snd a)
        [(Str ''India'', 2 :: nat), (Str ''China'', 1), (Str ''Brazil'', 1)]
   \<and> prefix (filter (\<lambda>p. snd p = 1) [(Str ''India'', 2 :: nat), (Str ''China'', 1), (Str ''Brazil'', 1)])
        [(Str ''China'', 1), (Str ''Brazil'', 1), (Str ''Peru'', 1)]"
proof -
  let ?r = "[(Str ''India'', 2 :: nat), (Str ''China'', 1), (Str ''Brazil'', 1)]"
  let ?ps = "[Str ''China'', Str ''India'', Str ''Brazil'', Str ''India'', Str ''Peru'']"
  have m: "matching_partners no_regex ranking_cases ''72'' = Inr ?ps"
    by (simp add: ranking_cases_def matching_partners_def getitem_def str_contains_def
        str_accessor_def re_compile_def regex_special_def na_false_def mask_rows_def
        select_rows_def)
  have g: "get_top_partners no_regex ranking_cases [''72''] 3 = Inr [(''72'', ?r)]"
    by (simp add: get_top_partners_def m Counter_def counter_add_def most_common_def Let_def)
  have d: "get_top_partners_default no_regex ranking_cases [''72''] = Inr [(''72'', ?r)]"
    by (simp add: get_top_partners_default_def g)
  have i: "(''72'', ?r) \<in> set [(''72'', ?r)]" by simp
  from top_partners_ranking [OF g i] m
  have "length ?r \<le> nat 3" and "sorted_wrt (\<lambda>a b. snd b \<le> snd a) ?r"
    by auto
  then show ?thesis using m g d by simp
qed

section \<open>The claim about the rows counted for a chapter\<close>

text \<open>
  C7. For two anti-dumping cases, one of the chapter 2 against India and one of the
  chapter 72 against China, \<open>main\<close> asks for the top partners of the chapters 2 and
  72, the tokens of the two chapter lists. The ranking of the chapter 2 counts both
  cases, although the chapter list of the second case, the one token 72, does not
  contain the chapter code 2: the rows counted are those whose chapter text contains
  the code as a piece of text.
\<close>

theorem chapter_substring_counted:
  "top_chapters (Counter (clean_and_split [Str ''2'', Str ''72''])) = [''2'', ''72'']
   \<and> get_top_partners_default no_regex chapter_two_cases [''2'', ''72'']
     = Inr [(''2'', [(Str ''India'', 1), (Str ''China'', 1)]), (''72'', [(Str ''China'', 1)])]
   \<and> matching_partners no_regex chapter_two_cases ''2'' = Inr [Str ''India'', Str ''China'']
   \<and> clean_and_split [Str ''72''] = [''72'']
   \<and> ''2'' \<notin> set (clean_and_split [Str ''72''])"
  by (simp add: chapter_two_cases_def top_chapters_def
      get_top_partners_default_def get_top_partners_def matching_partners_def getitem_def
      str_contains_def str_accessor_def re_compile_def regex_special_def na_false_def
      mask_rows_def select_rows_def clean_and_split_def str_split_def strip_def is_space_def
      Counter_def counter_add_def most_common_def Let_def)

section \<open>The claim about the sums of the counts\<close>

text \<open>
  C1, as stated, fails. For the one anti-dumping case of \<open>two_chapter_case\<close>, which
  matches the filter, the token counts of its two chapters sum to 2, and the counts
  per trading partner sum to 0, the partner of the case being missing.
\<close>

theorem aggregation_sums_counterexample:
  "getitem two_chapter_case ''Type'' = Inr [Str ''Anti-dumping'']
   \<and> str_contains no_regex ''Anti-dumping'' [Str ''Anti-dumping''] = Inr [Some True]
   \<and> tokens_count no_regex two_chapter_case ''Anti-dumping'' ''Product chapters''
       = Inr [(''62'', 1), (''63'', 1)]
   \<and> sum_list (map snd [(''62'', 1 :: nat), (''63'', 1)]) \<noteq> length [Str ''Anti-dumping'']
   \<and> cases_count_trading_partners no_regex two_chapter_case ''Anti-dumping'' = Inr []
   \<and> sum_list (map snd ([] :: (cell \<times> nat) list)) \<noteq> length [Str ''Anti-dumping'']"
  by (simp add: two_chapter_case_def tokens_count_def filter_by_type_def
      cases_count_trading_partners_def getitem_def str_contains_def str_accessor_def
      re_compile_def regex_special_def na_false_def mask_rows_def select_rows_def
      groupby_size_def group_keys_def clean_and_split_def str_split_def strip_def is_space_def
      Counter_def counter_add_def)

text \<open>
  C1, amended. The counts per trading partner of \<open>get_world_with_data_trading_partners\<close>
  sum to the number of rows that match the filter on the remedy type and have a
  trading partner that is not missing. The token counts of \<open>main\<close> in prod_analysis.py
  sum to the number of tokens of the matching rows, which is at least the number of
  matching rows. The counts of a remedy type per member of \<open>get_world_with_data\<close> sum
  to the number of rows with that remedy type and a member that is not missing. A row
  matches the filter when its type is a text in which the search of the pattern
  succeeds; for a pattern without special characters, as the remedy types are, that
  is the text containing the pattern.
\<close>

theorem aggregation_sums:
  "(cases_count_trading_partners rx df remedy_type = Inr counts
      \<and> getitem df ''Type'' = Inr types
      \<and> getitem df ''Trading partners'' = Inr partners
      \<and> re_compile rx remedy_type = Some search \<longrightarrow>
    sum_list (map snd counts)
      = length (filter (\<lambda>(t, p). (\<exists>s. t = Str s \<and> search s) \<and> \<not> is_na p)
                 (zip types partners)))
   \<and> (tokens_count rx data remedy col = Inr cnt
      \<and> getitem data ''Type'' = Inr data_types
      \<and> getitem data col = Inr column
      \<and> re_compile rx remedy = Some data_search \<longrightarrow>
    sum_list (map snd cnt)
      = length (clean_and_split
                 (map snd (filter (\<lambda>(t, x). \<exists>s. t = Str s \<and> data_search s)
                             (zip data_types column))))
    \<and> length (filter (\<lambda>(t, x). \<exists>s. t = Str s \<and> data_search s) (zip data_types column))
        \<le> sum_list (map snd cnt))
   \<and> (cases_count_remedy df1 member_remedy = Inr (index, member_counts)
      \<and> getitem df1 ''Member/Observer'' = Inr members
      \<and> getitem df1 ''Remedy Type'' = Inr remedies \<longrightarrow>
    (\<exists>ns. member_counts = map (\<lambda>n. Num (int n)) ns
        \<and> sum_list ns
          = length (filter (\<lambda>(m, r). \<not> is_na m \<and> r = Str member_remedy) (zip members remedies))))
   \<and> (\<not> list_ex regex_special pat \<longrightarrow> re_compile rx pat = Some (contains_sub pat))"
proof (intro conjI impI)
  assume "cases_count_trading_partners rx df remedy_type = Inr counts
      \<and> getitem df ''Type'' = Inr types
      \<and> getitem df ''Trading partners'' = Inr partners
      \<and> re_compile rx remedy_type = Some search"
  then show "sum_list (map snd counts)
      = length (filter (\<lambda>(t, p). (\<exists>s. t = Str s \<and> search s) \<and> \<not> is_na p)
                 (zip types partners))"
    by (intro cases_count_sum [of rx df remedy_type counts types partners search]) simp_all
next
  assume a: "tokens_count rx data remedy col = Inr cnt
      \<and> getitem data ''Type'' = Inr data_types
      \<and> getitem data col = Inr column
      \<and> re_compile rx remedy = Some data_search"
  have t: "sum_list (map snd cnt)
      = length (clean_and_split
                 (map snd (filter (\<lambda>(t, x). \<exists>s. t = Str s \<and> data_search s)
                             (zip data_types column))))
    \<and> length (filter (\<lambda>(t, x). \<exists>s. t = Str s \<and> data_search s) (zip data_types column))
        \<le> sum_list (map snd cnt)"
    by (rule tokens_count_sum [of rx data remedy col cnt data_types column data_search])
       (use a in simp_all)
  from t show "sum_list (map snd cnt)
      = length (clean_and_split
                 (map snd (filter (\<lambda>(t, x). \<exists>s. t = Str s \<and> data_search s)
                             (zip data_types column))))" ..
  from t show "length (filter (\<lambda>(t, x). \<exists>s. t = Str s \<and> data_search s) (zip data_types column))
        \<le> sum_list (map snd cnt)" ..
next
  assume "cases_count_remedy df1 member_remedy = Inr (index, member_counts)
      \<and> getitem df1 ''Member/Observer'' = Inr members
      \<and> getitem df1 ''Remedy Type'' = Inr remedies"
  then show "\<exists>ns. member_counts = map (\<lambda>n. Num (int n)) ns
        \<and> sum_list ns
          = length (filter (\<lambda>(m, r). \<not> is_na m \<and> r = Str member_remedy) (zip members remedies))"
    by (intro cases_count_remedy_sum [of df1 member_remedy index member_counts members remedies])
       simp_all
next
  assume "\<not> list_ex regex_special pat"
  then show "re_compile rx pat = Some (contains_sub pat)" by (rule re_compile_plain)
qed

theorem aggregation_sums_witness:
  "cases_count_trading_partners no_regex scenario_cases ''Anti-dumping'' = Inr [(Str ''India'', 2)]
   \<and> getitem scenario_cases ''Type''
       = Inr [Str ''Anti-dumping'', Str ''Anti-dumping'', Str ''Countervailing'']
   \<and> getitem scenario_cases ''Trading partners'' = Inr [Str ''India'', Str ''India'', Str ''China'']
   \<and> \<not> list_ex regex_special ''Anti-dumping''
   \<and> re_compile no_regex ''Anti-dumping'' = Some (contains_sub ''Anti-dumping'')
   \<and> sum_list (map snd [(Str ''India'', 2 :: nat)])
       = length (filter (\<lambda>(t, p). (\<exists>s. t = Str s \<and> contains_sub ''Anti-dumping'' s) \<and> \<not> is_na p)
                  (zip [Str ''Anti-dumping'', Str ''Anti-dumping'', Str ''Countervailing'']
                       [Str ''India'', Str ''India'', Str ''China'']))
   \<and> tokens_count no_regex chapter_cases ''Anti-dumping'' ''Product chapters''
       = Inr [(''62'', 1), (''63'', 1), (''nan'', 1)]
   \<and> getitem chapter_cases ''Type''
       = Inr [Str ''Anti-dumping'', Str ''Anti-dumping'', Str ''Countervailing'']
   \<and> getitem chapter_cases ''Product chapters'' = Inr [Str ''62, 63'', NaN, Str ''72'']
   \<and> length (filter (\<lambda>(t, x). \<exists>s. t = Str s \<and> contains_sub ''Anti-dumping'' s)
               (zip [Str ''Anti-dumping'', Str ''Anti-dumping'', Str ''Countervailing'']
                    [Str ''62, 63'', NaN, Str ''72'']))
       \<le> sum_list (map snd [(''62'', 1 :: nat), (''63'', 1), (''nan'', 1)])
   \<and> cases_count_remedy
        (fst (get_world_with_data scenario_cases scenario_world ''Anti-dumping'')) ''Anti-dumping''
       = Inr ([Str ''Brazil'', Str ''India''], [Num 2, Num 0])
   \<and> getitem (fst (get_world_with_data scenario_cases scenario_world ''Anti-dumping''))
        ''Member/Observer'' = Inr [Str ''Brazil'', Str ''Brazil'', Str ''India'']
   \<and> getitem (fst (get_world_with_data scenario_cases scenario_world ''Anti-dumping''))
        ''Remedy Type'' = Inr [Str ''Anti-dumping'', Str ''Anti-dumping'', Str ''Countervailing'']
   \<and> [Num 2, Num 0] = map (\<lambda>n. Num (int n)) [2, 0]
   \<and> sum_list [2, 0 :: nat]
       = length (filter (\<lambda>(m, r). \<not> is_na m \<and> r = Str ''Anti-dumping'')
                  (zip [Str ''Brazil'', Str ''Brazil'', Str ''India'']
                       [Str ''Anti-dumping'', Str ''Anti-dumping'', Str ''Countervailing'']))"
proof -
  let ?df1 = "fst (get_world_with_data scenario_cases scenario_world ''Anti-dumping'')"
  let ?types = "[Str ''Anti-dumping'', Str ''Anti-dumping'', Str ''Countervailing'']"
  note a1 = scenario_partners_count
  have a2: "getitem scenario_cases ''Type'' = Inr ?types"
    and a3: "getitem scenario_cases ''Trading partners''
       = Inr [Str ''India'', Str ''India'', Str ''China'']"
    by (simp_all add: scenario_cases_def getitem_def)
  have pl: "\<not> list_ex regex_special ''Anti-dumping''"
    by (simp add: regex_special_def)
  have b1: "tokens_count no_regex chapter_cases ''Anti-dumping'' ''Product chapters''
       = Inr [(''62'', 1), (''63'', 1), (''nan'', 1)]"
    by (simp add: chapter_cases_def tokens_count_def filter_by_type_def getitem_def
        str_contains_def str_accessor_def re_compile_def regex_special_def na_false_def
        mask_rows_def select_rows_def clean_and_split_def str_split_def strip_def is_space_def
        Counter_def counter_add_def)
  have b2: "getitem chapter_cases ''Type'' = Inr ?types"
    and b3: "getitem chapter_cases ''Product chapters'' = Inr [Str ''62, 63'', NaN, Str ''72'']"
    by (simp_all add: chapter_cases_def getitem_def)
  note c1 = scenario_members_count
  have c2: "getitem ?df1 ''Member/Observer'' = Inr [Str ''Brazil'', Str ''Brazil'', Str ''India'']"
    and c3: "getitem ?df1 ''Remedy Type'' = Inr ?types"
    by (simp_all add: eval_defs)
  note t = aggregation_sums [of no_regex scenario_cases "''Anti-dumping''" "[(Str ''India'', 2)]"
      ?types "[Str ''India'', Str ''India'', Str ''China'']" "contains_sub ''Anti-dumping''"
      chapter_cases "''Anti-dumping''" "''Product chapters''"
      "[(''62'', 1), (''63'', 1), (''nan'', 1)]" ?types "[Str ''62, 63'', NaN, Str ''72'']"
      "contains_sub ''Anti-dumping''"
      ?df1 "''Anti-dumping''" "[Str ''Brazil'', Str ''India'']" "[Num 2, Num 0]"
      "[Str ''Brazil'', Str ''Brazil'', Str ''India'']" ?types "''Anti-dumping''"]
  have rc: "re_compile no_regex ''Anti-dumping'' = Some (contains_sub ''Anti-dumping'')"
    by (rule t [THEN conjunct2, THEN conjunct2, THEN conjunct2, THEN mp, OF pl])
  have r1: "sum_list (map snd [(Str ''India'', 2 :: nat)])
       = length (filter (\<lambda>(t, p). (\<exists>s. t = Str s \<and> contains_sub ''Anti-dumping'' s) \<and> \<not> is_na p)
                  (zip ?types [Str ''India'', Str ''India'', Str ''China'']))"
    by (rule t [THEN conjunct1, THEN mp]) (intro conjI a1 a2 a3 rc)
  have r2: "length (filter (\<lambda>(t, x). \<exists>s. t = Str s \<and> contains_sub ''Anti-dumping'' s)
               (zip ?types [Str ''62, 63'', NaN, Str ''72'']))
       \<le> sum_list (map snd [(''62'', 1 :: nat), (''63'', 1), (''nan'', 1)])"
    by (rule t [THEN conjunct2, THEN conjunct1, THEN mp, THEN conjunct2])
       (intro conjI b1 b2 b3 rc)
  have r3: "[Num 2, Num 0] = map (\<lambda>n. Num (int n)) [2, 0]" by simp
  have r4: "sum_list [2, 0 :: nat]
       = length (filter (\<lambda>(m, r). \<not> is_na m \<and> r = Str ''Anti-dumping'')
                  (zip [Str ''Brazil'', Str ''Brazil'', Str ''India''] ?types))"
    by simp
  show ?thesis
    by (intro conjI) (rule a1 a2 a3 pl rc r1 b1 b2 b3 r2 c1 c2 c3 r3 r4)+
qed

end
